theory Spec2Isabelle
  imports Main
begin

section \<open>The model of \<^verbatim>\<open>edb/server/pgsql/compiler/dbobj.py\<close>\<close>

subsection \<open>Errors\<close>

text \<open>
  Every raise of the source is a value. \<open>IndexError\<close> is Python's out-of-range subscript,
  \<open>AttributeError\<close> a read of a field the node's class does not have,
  \<open>AssertionError\<close> the failed \<^verbatim>\<open>assert isinstance(var, pgast.OutputVar)\<close>,
  \<open>RecursionError\<close> the interpreter's call-depth limit, \<open>StorageMetadataError\<close> a
  failure of the pointer-storage lookup. \<open>EmptyCompositionError\<close> is the name the
  specification's error taxonomy uses for an empty branch list; no statement of the source
  raises it.
\<close>

datatype py_error =
    IndexError
  | AttributeError
  | AssertionError
  | RecursionError
  | StorageMetadataError
  | EmptyCompositionError

subsection \<open>The relational syntax tree\<close>

text \<open>
  Modelled from the spec: the node classes of \<^verbatim>\<open>edb.server.pgsql.ast\<close> (imported as
  \<^verbatim>\<open>pgast\<close>) are not part of the source file. The constructors below carry exactly the
  fields that \<^verbatim>\<open>dbobj.py\<close> reads or writes. A field the source never passes to a
  constructor is \<open>None\<close> (or the empty list for a list field): in particular
  \<open>is_distinct = None\<close> says that no statement of \<^verbatim>\<open>dbobj.py\<close> has assigned
  the flag, whatever the class default of the node is.
\<close>

type_synonym path_id = string

datatype sname = SName (module: string) (name: string)

datatype pg_alias = Alias (aliasname: string) (colnames: "string list")

datatype column_ref =
  ColumnRef (col_name: "string list") (col_nullable: "bool option") (col_optional: "bool option")

datatype res_target = ResTarget (val: column_ref) (res_name: "string option")

datatype base_relation =
    Relation
      (schemaname: string)
      (rel_name: "string option")
      (path_id: "path_id option")
      (is_distinct: "bool option")
  | SelectStmt
      (rel_name: "string option")
      (target_list: "res_target list")
      (from_clause: "range_var list")
      (sel_all: bool)
      (sel_op: "string option")
      (larg: "base_relation option")
      (rarg: "base_relation option")
      (rptr_rvar: "range_var option")
      (path_id: "path_id option")
      (is_distinct: "bool option")
      (path_rvar_map: "(path_id \<times> range_var) list")
      (path_scope: "path_id list")
  | CommonTableExpr
      (rel_name: "string option")
      (cte_query: base_relation)
      (path_id: "path_id option")
      (is_distinct: "bool option")
and range_var =
    RangeVar (relation: base_relation) (rvar_alias: pg_alias)
  | RangeSubselect (subquery: base_relation) (rvar_alias: pg_alias)

text \<open>\<^verbatim>\<open>pgast.SelectStmt()\<close> with no argument.\<close>

definition empty_select :: base_relation where
  "empty_select = SelectStmt None [] [] False None None None None None None [] []"

text \<open>
  Output variables. \<^verbatim>\<open>TupleElement.name\<close> is handed to \<^verbatim>\<open>get_rvar_var\<close>, whose
  first statement asserts that it is an output variable; \<open>py_value\<close> holds what can reach
  that assertion.
\<close>

datatype output_var =
    ColumnVar column_ref
  | TupleVar (elements: "tuple_element list") (named: bool)
and tuple_element =
    TupleElement (el_path_id: path_id) (el_name: py_value) (el_val: "output_var option")
and py_value =
    IsOutputVar output_var
  | IsStr string

text \<open>The \<^verbatim>\<open>typing.Union[str, pgast.ColumnRef]\<close> of \<^verbatim>\<open>get_column\<close>.\<close>

datatype colspec = ColName string | ColRef column_ref

subsection \<open>Column resolution\<close>

text \<open>The name of the reference: qualified by the alias of the range variable, when there is one.\<close>

definition column_name :: "range_var option \<Rightarrow> string \<Rightarrow> string list" where
  "column_name rvar colname =
     (case rvar of
        None \<Rightarrow> [colname]
      | Some r \<Rightarrow> [aliasname (rvar_alias r), colname])"

definition get_column ::
  "range_var option \<Rightarrow> colspec \<Rightarrow> bool \<Rightarrow> bool option \<Rightarrow> py_error + column_ref" where
  "get_column rvar colspec optional nullable =
     (case
        (case colspec of
           ColRef c \<Rightarrow>
             (case col_name c of
                [] \<Rightarrow> Inl IndexError
              | _ # _ \<Rightarrow>
                  Inr (last (col_name c),
                       (case nullable of None \<Rightarrow> col_nullable c | Some b \<Rightarrow> Some b),
                       col_optional c))
         | ColName s \<Rightarrow>
             Inr (s,
                  (case nullable of None \<Rightarrow> Some True | Some b \<Rightarrow> Some b),
                  Some optional))
      of
        Inl e \<Rightarrow> Inl e
      | Inr (colname, nullable', optional') \<Rightarrow>
          Inr (ColumnRef (column_name rvar colname) nullable' optional'))"

fun get_rvar_var ::
    "range_var option \<Rightarrow> py_value \<Rightarrow> bool \<Rightarrow> bool option \<Rightarrow> py_error + output_var"
  and get_rvar_var_elements ::
    "range_var option \<Rightarrow> tuple_element list \<Rightarrow> tuple_element list
       \<Rightarrow> py_error + tuple_element list"
where
  "get_rvar_var rvar (IsStr s) optional nullable = Inl AssertionError"
| "get_rvar_var rvar (IsOutputVar (TupleVar els nmd)) optional nullable =
     (case get_rvar_var_elements rvar els [] of
        Inl e \<Rightarrow> Inl e
      | Inr elems \<Rightarrow> Inr (TupleVar elems nmd))"
| "get_rvar_var rvar (IsOutputVar (ColumnVar c)) optional nullable =
     (case get_column rvar (ColRef c) optional nullable of
        Inl e \<Rightarrow> Inl e
      | Inr fieldref \<Rightarrow> Inr (ColumnVar fieldref))"
| "get_rvar_var_elements rvar [] elems = Inr elems"
| "get_rvar_var_elements rvar (TupleElement pid nm v # els) elems =
     (case get_rvar_var rvar nm False None of
        Inl e \<Rightarrow> Inl e
      | Inr val' \<Rightarrow>
          get_rvar_var_elements rvar els (elems @ [TupleElement pid nm (Some val')]))"

subsection \<open>The schema catalog and the compilation environment\<close>

text \<open>
  Modelled from the spec: the schema catalog (\<^verbatim>\<open>edb.lang.schema\<close>), the backend-name
  resolution \<^verbatim>\<open>common.get_backend_name\<close> and the pointer-storage lookup
  \<^verbatim>\<open>pgtypes.get_pointer_storage_info\<close> are external collaborators that are not part of
  the source file. A schema object is known by its identity; every accessor the source
  calls with \<^verbatim>\<open>env.schema\<close> is a field of the catalog. \<open>getptr\<close> returns \<open>None\<close>
  where the Python raises \<^verbatim>\<open>KeyError\<close>, which the only caller catches.
\<close>

datatype sobject = ObjectType string | Link string

datatype pointer_direction = Outbound | Inbound

record s_schema =
  get_name :: "sobject \<Rightarrow> sname"
  get_shortname :: "sobject \<Rightarrow> sname"
  material_type :: "sobject \<Rightarrow> sobject"
  get_is_virtual :: "sobject \<Rightarrow> bool"
  children :: "sobject \<Rightarrow> sobject list"
  descendants :: "sobject \<Rightarrow> sobject list"
  getptr :: "sobject \<Rightarrow> sname \<Rightarrow> sobject option"
  get_source :: "sobject \<Rightarrow> sobject"
  get_backend_name :: "sobject \<Rightarrow> string \<times> string"
  get_pointer_storage_info :: "sobject \<Rightarrow> py_error + string"

text \<open>
  Modelled from the spec: the alias allocator \<^verbatim>\<open>env.aliases\<close> is consumed as a
  capability (\<open>allocate(hint) -> identifier\<close>); its class is not part of the source file.
  Its state \<open>'s\<close> and its step \<open>aliases_get\<close> are parameters of the environment. The
  overlay registry \<^verbatim>\<open>env.rel_overlays\<close> maps an entity name to the ordered list of
  \<open>(operation, relation)\<close> pairs registered for it.
\<close>

type_synonym set_ops = "(string \<times> base_relation) list"

record 's environment =
  schema :: s_schema
  rel_overlays :: "sname \<Rightarrow> set_ops option"
  aliases :: 's
  aliases_get :: "'s \<Rightarrow> string option \<Rightarrow> string \<times> 's"

text \<open>
  \<^verbatim>\<open>if overlays and include_overlays\<close>: the value of \<^verbatim>\<open>env.rel_overlays.get(name)\<close> is
  truthy when the name is registered with a non-empty list.
\<close>

fun truthy :: "set_ops option \<Rightarrow> bool" where
  "truthy None = False"
| "truthy (Some overlays) = (overlays \<noteq> [])"

fun overlay_list :: "set_ops option \<Rightarrow> set_ops" where
  "overlay_list None = []"
| "overlay_list (Some overlays) = overlays"

text \<open>\<^verbatim>\<open>env.aliases.get(hint)\<close>: the identifier, and the environment with the allocator advanced.\<close>

definition env_aliases_get :: "'s environment \<Rightarrow> string option \<Rightarrow> string \<times> 's environment" where
  "env_aliases_get env hint =
     (case aliases_get env (aliases env) hint of
        (a, s') \<Rightarrow> (a, env\<lparr>aliases := s'\<rparr>))"

text \<open>
  Modelled from the spec: \<^verbatim>\<open>pathctx.put_path_value_rvar\<close> and
  \<^verbatim>\<open>pathctx.put_path_bond\<close> (not part of the source file) tag a statement with the range
  variable that carries the value of a path, and with the uniqueness bond of that path.
\<close>

fun put_path_value_rvar :: "base_relation \<Rightarrow> path_id \<Rightarrow> range_var \<Rightarrow> base_relation" where
  "put_path_value_rvar (SelectStmt n tg fc a opr l r rp pid d m sc) p rv =
     SelectStmt n tg fc a opr l r rp pid d ((p, rv) # m) sc"
| "put_path_value_rvar q p rv = q"

fun put_path_bond :: "base_relation \<Rightarrow> path_id \<Rightarrow> base_relation" where
  "put_path_bond (SelectStmt n tg fc a opr l r rp pid d m sc) p =
     SelectStmt n tg fc a opr l r rp pid d m (p # sc)"
| "put_path_bond q p = q"

text \<open>
  Modelled from the spec: the \<^verbatim>\<open>query\<close> property of a range variable (not part of the
  source file) is the relation the variable ranges over, the query of the common table
  expression when the relation is one, and the subquery of a subselect. The two
  assignments \<^verbatim>\<open>rvar.query.is_distinct = True\<close> and \<^verbatim>\<open>rvar.query.path_id = path_id\<close>
  write into that node; the model returns the range variable with the node rewritten.
  When the node is a relation held by the overlay registry, the registry's copy is not
  rewritten: no function of the source file reads these two fields of a registered relation.
\<close>

fun rvar_query :: "range_var \<Rightarrow> base_relation" where
  "rvar_query (RangeVar (CommonTableExpr n q pid d) a) = q"
| "rvar_query (RangeVar rel a) = rel"
| "rvar_query (RangeSubselect q a) = q"

fun set_is_distinct :: "base_relation \<Rightarrow> bool \<Rightarrow> base_relation" where
  "set_is_distinct (Relation s n pid d) b = Relation s n pid (Some b)"
| "set_is_distinct (SelectStmt n tg fc a opr l r rp pid d m sc) b =
     SelectStmt n tg fc a opr l r rp pid (Some b) m sc"
| "set_is_distinct (CommonTableExpr n q pid d) b = CommonTableExpr n q pid (Some b)"

fun set_path_id :: "base_relation \<Rightarrow> path_id \<Rightarrow> base_relation" where
  "set_path_id (Relation s n pid d) p = Relation s n (Some p) d"
| "set_path_id (SelectStmt n tg fc a opr l r rp pid d m sc) p =
     SelectStmt n tg fc a opr l r rp (Some p) d m sc"
| "set_path_id (CommonTableExpr n q pid d) p = CommonTableExpr n q (Some p) d"

fun map_rvar_query :: "(base_relation \<Rightarrow> base_relation) \<Rightarrow> range_var \<Rightarrow> range_var" where
  "map_rvar_query f (RangeVar (CommonTableExpr n q pid d) a) =
     RangeVar (CommonTableExpr n (f q) pid d) a"
| "map_rvar_query f (RangeVar rel a) = RangeVar (f rel) a"
| "map_rvar_query f (RangeSubselect q a) = RangeSubselect (f q) a"

subsection \<open>The set combinator\<close>

text \<open>\<^verbatim>\<open>pgast.SelectStmt(all=True, larg=q)\<close> and \<^verbatim>\<open>qry.op, qry.rarg = op, rarg\<close>.\<close>

definition select_all_larg :: "base_relation \<Rightarrow> base_relation" where
  "select_all_larg q = SelectStmt None [] [] True None (Some q) None None None None [] []"

fun set_op_rarg :: "base_relation \<Rightarrow> string \<Rightarrow> base_relation \<Rightarrow> base_relation" where
  "set_op_rarg (SelectStmt n tg fc a opr l r rp pid d m sc) op' rarg' =
     SelectStmt n tg fc a (Some op') l (Some rarg') rp pid d m sc"
| "set_op_rarg q op' rarg' = q"

text \<open>The loop \<^verbatim>\<open>for op, rarg in set_ops[1:]\<close>, on the statement under construction.\<close>

fun set_ops_loop :: "set_ops \<Rightarrow> base_relation \<Rightarrow> base_relation" where
  "set_ops_loop [] qry = qry"
| "set_ops_loop ((op', rarg') # rest) qry =
     set_ops_loop rest (select_all_larg (set_op_rarg qry op' rarg'))"

text \<open>
  With at most one entry the source reads \<^verbatim>\<open>set_ops[0][1].from_clause[0]\<close>: an empty
  \<open>set_ops\<close> or an empty \<open>from_clause\<close> is an \<open>IndexError\<close>, and a relation that is not
  a statement has no \<open>from_clause\<close>. The statement left by the loop always has its
  \<open>larg\<close>, so the \<open>None\<close> branch of the last read is never taken.
\<close>

definition range_from_queryset ::
  "set_ops \<Rightarrow> sobject \<Rightarrow> 's environment \<Rightarrow> py_error + (range_var \<times> 's environment)" where
  "range_from_queryset set_ops stype env =
     (if length set_ops > 1 then
        (case larg (set_ops_loop (tl set_ops) (select_all_larg (snd (hd set_ops)))) of
           None \<Rightarrow> Inl AttributeError
         | Some qry \<Rightarrow>
             (case env_aliases_get env (Some (name (get_shortname (schema env) stype))) of
                (a, env') \<Rightarrow> Inr (RangeSubselect qry (Alias a []), env')))
      else
        (case set_ops of
           [] \<Rightarrow> Inl IndexError
         | (op', rel) # _ \<Rightarrow>
             (case rel of
                SelectStmt n tg fc al opr l r rp pid d m sc \<Rightarrow>
                  (case fc of
                     [] \<Rightarrow> Inl IndexError
                   | rvar # _ \<Rightarrow> Inr (rvar, env))
              | _ \<Rightarrow> Inl AttributeError)))"

subsection \<open>The object-type range synthesizer\<close>

text \<open>\<^verbatim>\<open>pgast.SelectStmt(from_clause=[rvar])\<close>.\<close>

definition select_from :: "range_var \<Rightarrow> base_relation" where
  "select_from rvar = SelectStmt None [] [rvar] False None None None None None None [] []"

text \<open>
  The branch of one range variable: the statement selecting from it, with the path's
  value and bond recorded.
\<close>

definition path_branch :: "range_var \<Rightarrow> path_id \<Rightarrow> base_relation" where
  "path_branch rvar pid = put_path_bond (put_path_value_rvar (select_from rvar) pid rvar) pid"

text \<open>The loop \<^verbatim>\<open>for op, cte in overlays\<close> of \<^verbatim>\<open>range_for_material_objtype\<close>.\<close>

fun material_overlays_loop ::
  "set_ops \<Rightarrow> path_id \<Rightarrow> set_ops \<Rightarrow> 's environment \<Rightarrow> set_ops \<times> 's environment" where
  "material_overlays_loop [] pid set_ops env = (set_ops, env)"
| "material_overlays_loop ((op', cte) # rest) pid set_ops env =
     (case env_aliases_get env (rel_name cte) of
        (a, env') \<Rightarrow>
          (let rvar = RangeVar cte (Alias a []);
               qry = path_branch rvar pid
           in if op' = ''replace''
              then material_overlays_loop rest pid [(''union'', qry)] env'
              else material_overlays_loop rest pid (set_ops @ [(op', qry)]) env'))"

text \<open>
  The list \<open>set_ops\<close> that \<^verbatim>\<open>range_for_material_objtype\<close> hands to the set combinator
  when overlays apply: the base branch, then the loop over the overlays.
\<close>

definition material_set_ops ::
  "range_var \<Rightarrow> set_ops \<Rightarrow> path_id \<Rightarrow> 's environment \<Rightarrow> set_ops \<times> 's environment" where
  "material_set_ops rvar overlays pid env =
     material_overlays_loop overlays pid [(''union'', path_branch rvar pid)] env"

text \<open>The table of a material object type and the range variable over it.\<close>

definition material_rvar ::
  "sobject \<Rightarrow> path_id \<Rightarrow> 's environment \<Rightarrow> range_var \<times> 's environment" where
  "material_rvar objtype pid env =
     (let objtype_name = get_name (schema env) objtype;
          table_schema_name =
            (if module objtype_name = ''schema'' then ''edgedbss''
             else fst (get_backend_name (schema env) objtype));
          table_name = snd (get_backend_name (schema env) objtype);
          relation' = Relation table_schema_name (Some table_name) (Some pid) None
      in case env_aliases_get env (Some (name objtype_name)) of
           (a, env') \<Rightarrow> (RangeVar relation' (Alias a []), env'))"

definition range_for_material_objtype ::
  "sobject \<Rightarrow> path_id \<Rightarrow> bool \<Rightarrow> 's environment \<Rightarrow> py_error + (range_var \<times> 's environment)" where
  "range_for_material_objtype objtype0 pid include_overlays env =
     (let objtype = material_type (schema env) objtype0;
          objtype_name = get_name (schema env) objtype
      in case material_rvar objtype pid env of
           (rvar, env1) \<Rightarrow>
             (let overlays = rel_overlays env1 objtype_name
              in if truthy overlays \<and> include_overlays
                 then (case material_set_ops rvar (overlay_list overlays) pid env1 of
                         (set_ops, env2) \<Rightarrow> range_from_queryset set_ops objtype env2)
                 else Inr (rvar, env1)))"

subsection \<open>The object-type range dispatcher\<close>

text \<open>
  \<open>range_for_objtype\<close> calls itself for every child of a virtual type. The first
  argument is the number of nested calls that the interpreter's recursion limit still
  allows; at zero the call raises \<open>RecursionError\<close>. The children are iterated as
  \<^verbatim>\<open>frozenset(objtype.children(env.schema))\<close>: each child once. The order in which
  Python iterates the set is not fixed by the source; the model follows the catalog's list.
\<close>

fun range_for_objtype ::
    "nat \<Rightarrow> sobject \<Rightarrow> path_id \<Rightarrow> bool \<Rightarrow> 's environment
       \<Rightarrow> py_error + (range_var \<times> 's environment)"
  and children_loop ::
    "nat \<Rightarrow> sobject list \<Rightarrow> path_id \<Rightarrow> bool \<Rightarrow> set_ops \<Rightarrow> 's environment
       \<Rightarrow> py_error + (set_ops \<times> 's environment)"
where
  "range_for_objtype 0 objtype pid include_overlays env = Inl RecursionError"
| "range_for_objtype (Suc depth) objtype pid include_overlays env =
     (case
        (if \<not> get_is_virtual (schema env) objtype
         then range_for_material_objtype objtype pid include_overlays env
         else
           (case children_loop depth (remdups (children (schema env) objtype))
                   pid include_overlays [] env of
              Inl e \<Rightarrow> Inl e
            | Inr (set_ops, env') \<Rightarrow> range_from_queryset set_ops objtype env'))
      of
        Inl e \<Rightarrow> Inl e
      | Inr (rvar, env') \<Rightarrow>
          Inr (map_rvar_query (\<lambda>q. set_path_id (set_is_distinct q True) pid) rvar, env'))"
| "children_loop depth [] pid include_overlays set_ops env = Inr (set_ops, env)"
| "children_loop depth (child # rest) pid include_overlays set_ops env =
     (case range_for_objtype depth child pid include_overlays env of
        Inl e \<Rightarrow> Inl e
      | Inr (c_rvar, env') \<Rightarrow>
          children_loop depth rest pid include_overlays
            (set_ops @ [(''union'', path_branch c_rvar pid)]) env')"

subsection \<open>The pointer range synthesizer\<close>

definition table_from_ptrcls :: "sobject \<Rightarrow> 's environment \<Rightarrow> range_var \<times> 's environment" where
  "table_from_ptrcls ptrcls env =
     (let pname = get_shortname (schema env) ptrcls;
          table_schema_name =
            (if module pname = ''schema'' then ''edgedbss''
             else fst (get_backend_name (schema env) ptrcls));
          table_name = snd (get_backend_name (schema env) ptrcls);
          relation' = Relation table_schema_name (Some table_name) None None
      in case env_aliases_get env (Some (name pname)) of
           (a, env') \<Rightarrow> (RangeVar relation' (Alias a []), env'))"

text \<open>The statement built for one storage table: both columns, qualified by the table's alias.\<close>

definition ptrcls_table_branch :: "range_var \<Rightarrow> string list \<Rightarrow> base_relation" where
  "ptrcls_table_branch table cols =
     SelectStmt None
       (map (\<lambda>colname.
               ResTarget (ColumnRef [aliasname (rvar_alias table), colname] None None)
                 (Some colname)) cols)
       [table] False None None None (Some table) None None [] []"

text \<open>The statement built for one overlay of a pointer: the same columns, unqualified.\<close>

definition ptrcls_overlay_branch :: "range_var \<Rightarrow> string list \<Rightarrow> base_relation" where
  "ptrcls_overlay_branch rvar cols =
     SelectStmt None
       (map (\<lambda>col. ResTarget (ColumnRef [col] None None) None) cols)
       [rvar] False None None None None None None [] []"

text \<open>The loop \<^verbatim>\<open>for op, cte in overlays\<close> of \<^verbatim>\<open>range_for_ptrcls\<close>.\<close>

fun ptrcls_overlays_loop ::
  "set_ops \<Rightarrow> string list \<Rightarrow> set_ops \<Rightarrow> 's environment \<Rightarrow> set_ops \<times> 's environment" where
  "ptrcls_overlays_loop [] cols set_ops env = (set_ops, env)"
| "ptrcls_overlays_loop ((op', cte) # rest) cols set_ops env =
     (case env_aliases_get env (rel_name cte) of
        (a, env') \<Rightarrow>
          ptrcls_overlays_loop rest cols
            (set_ops @ [(op', ptrcls_overlay_branch (RangeVar cte (Alias a [])) cols)]) env')"

text \<open>
  The loop \<^verbatim>\<open>for source in {endpoint} | set(endpoint.descendants(env.schema))\<close>, over the
  sources in the order they are iterated, with the set \<open>ptrclses\<close> of the pointers seen.
\<close>

fun ptrcls_sources_loop ::
  "sobject list \<Rightarrow> sname \<Rightarrow> string list \<Rightarrow> bool \<Rightarrow> set_ops \<Rightarrow> sobject set \<Rightarrow> 's environment
     \<Rightarrow> set_ops \<times> sobject set \<times> 's environment" where
  "ptrcls_sources_loop [] linkname cols include_overlays set_ops ptrclses env =
     (set_ops, ptrclses, env)"
| "ptrcls_sources_loop (source # rest) linkname cols include_overlays set_ops ptrclses env =
     (case getptr (schema env) source linkname of
        None \<Rightarrow> ptrcls_sources_loop rest linkname cols include_overlays set_ops ptrclses env
      | Some ptr \<Rightarrow>
          (let src_ptrcls = material_type (schema env) ptr
           in if src_ptrcls \<in> ptrclses
              then ptrcls_sources_loop rest linkname cols include_overlays set_ops ptrclses env
              else
                (case table_from_ptrcls src_ptrcls env of
                   (table, env1) \<Rightarrow>
                     (let set_ops1 = set_ops @ [(''union'', ptrcls_table_branch table cols)];
                          overlays = rel_overlays env1 (get_shortname (schema env1) src_ptrcls)
                      in case
                           (if truthy overlays \<and> include_overlays
                            then ptrcls_overlays_loop (overlay_list overlays) cols set_ops1 env1
                            else (set_ops1, env1))
                         of
                           (set_ops2, env2) \<Rightarrow>
                             ptrcls_sources_loop rest linkname cols include_overlays set_ops2
                               (insert src_ptrcls ptrclses) env2))))"

text \<open>
  The sources are the endpoint and its descendants, each once. The order in which Python
  iterates the set is not fixed by the source; the model visits the endpoint first and
  then the descendants as the catalog lists them.
\<close>

definition range_for_ptrcls ::
  "sobject \<Rightarrow> pointer_direction \<Rightarrow> bool \<Rightarrow> 's environment
     \<Rightarrow> py_error + (range_var \<times> 's environment)" where
  "range_for_ptrcls ptrcls direction include_overlays env =
     (let linkname = get_shortname (schema env) ptrcls;
          endpoint = get_source (schema env) ptrcls
      in case get_pointer_storage_info (schema env) ptrcls of
           Inl e \<Rightarrow> Inl e
         | Inr tgt_col \<Rightarrow>
             (case ptrcls_sources_loop
                     (remdups (endpoint # descendants (schema env) endpoint))
                     linkname [''std::source'', tgt_col] include_overlays [] {} env of
                (set_ops, ptrclses, env') \<Rightarrow> range_from_queryset set_ops ptrcls env'))"

subsection \<open>Overlay registration\<close>

definition add_rel_overlay ::
  "sobject \<Rightarrow> string \<Rightarrow> base_relation \<Rightarrow> 's environment \<Rightarrow> 's environment" where
  "add_rel_overlay stype op' rel env =
     env\<lparr>rel_overlays :=
       (rel_overlays env)
         (get_name (schema env) stype \<mapsto>
            (case rel_overlays env (get_name (schema env) stype) of
               None \<Rightarrow> []
             | Some overlays \<Rightarrow> overlays) @ [(op', rel)])\<rparr>"

section \<open>Notions used in the statements\<close>

subsection \<open>Notions used in the statements about output variables\<close>

text \<open>The results of a list of resolutions: the values, or the first error.\<close>

fun collect :: "(py_error + 'a) list \<Rightarrow> py_error + 'a list" where
  "collect [] = Inr []"
| "collect (Inl e # rs) = Inl e"
| "collect (Inr v # rs) = (case collect rs of Inl e \<Rightarrow> Inl e | Inr vs \<Rightarrow> Inr (v # vs))"

text \<open>The element of the composite reference built for an element and its resolved name.\<close>

definition resolved_element :: "tuple_element \<Rightarrow> output_var \<Rightarrow> tuple_element" where
  "resolved_element el v = TupleElement (el_path_id el) (el_name el) (Some v)"



subsection \<open>Notions used in the statements about ranges\<close>

text \<open>
  The composed node of the specification's set combinator: the accumulator on the left,
  the new relation on the right, combined with the operation.
\<close>

definition set_op_node :: "base_relation \<Rightarrow> string \<Rightarrow> base_relation \<Rightarrow> base_relation" where
  "set_op_node acc op' rel =
     SelectStmt None [] [] True (Some op') (Some acc) (Some rel) None None None [] []"

text \<open>
  The left-deep chain as the specification words it: the accumulator starts at the first
  entry's relation, and every further entry is combined on the right, in the input order.
\<close>

fun left_deep_chain :: "set_ops \<Rightarrow> base_relation option" where
  "left_deep_chain [] = None"
| "left_deep_chain ((op0, rel0) # rest) =
     Some (foldl (\<lambda>acc (op', rel). set_op_node acc op' rel) rel0 rest)"

text \<open>The identifiers handed out for a sequence of hints, and the environment afterwards.\<close>

fun aliases_seq :: "'s environment \<Rightarrow> string option list \<Rightarrow> string list \<times> 's environment" where
  "aliases_seq env [] = ([], env)"
| "aliases_seq env (hint # hints) =
     (case env_aliases_get env hint of
        (a, env') \<Rightarrow> (case aliases_seq env' hints of (as, env'') \<Rightarrow> (a # as, env'')))"

text \<open>
  A branch is a statement with a range variable in its \<open>from_clause\<close>: the set
  combinator can return that variable when the branch is the only one.
\<close>

fun is_branch :: "base_relation \<Rightarrow> bool" where
  "is_branch (SelectStmt n tg (rvar # rvs) a opr l r rp pid d m sc) = True"
| "is_branch q = False"

definition all_branches :: "set_ops \<Rightarrow> bool" where
  "all_branches set_ops = list_all (\<lambda>e. is_branch (snd e)) set_ops"

text \<open>
  An object type resolves within a call depth when the dispatcher has a call left for it
  and, if it is virtual, it has at least one child and every child resolves one call
  deeper.
\<close>

fun objtype_resolves :: "nat \<Rightarrow> s_schema \<Rightarrow> sobject \<Rightarrow> bool"
  and children_resolve :: "nat \<Rightarrow> s_schema \<Rightarrow> sobject list \<Rightarrow> bool" where
  "objtype_resolves 0 sch objtype = False"
| "objtype_resolves (Suc depth) sch objtype =
     (if get_is_virtual sch objtype
      then children sch objtype \<noteq> [] \<and> children_resolve depth sch (remdups (children sch objtype))
      else True)"
| "children_resolve depth sch [] = True"
| "children_resolve depth sch (child # rest) =
     (objtype_resolves depth sch child \<and> children_resolve depth sch rest)"

text \<open>
  Synthesis only advances the alias allocator: the catalog, the overlay registry and the
  allocator's step are the same before and after.
\<close>

definition same_catalog :: "'s environment \<Rightarrow> 's environment \<Rightarrow> bool" where
  "same_catalog env env' =
     (schema env' = schema env \<and> rel_overlays env' = rel_overlays env
      \<and> aliases_get env' = aliases_get env)"

text \<open>The branches and the operations of a left-deep chain, from left to right.\<close>

fun chain_branches :: "base_relation \<Rightarrow> base_relation list" where
  "chain_branches (SelectStmt n tg fc a opr (Some l) (Some r) rp pid d m sc) =
     chain_branches l @ [r]"
| "chain_branches q = [q]"

fun chain_ops :: "base_relation \<Rightarrow> string list" where
  "chain_ops (SelectStmt n tg fc a (Some op') (Some l) (Some r) rp pid d m sc) =
     chain_ops l @ [op']"
| "chain_ops q = []"

text \<open>
  The branch built for a storage table of a pointer records the table in \<open>rptr_rvar\<close>;
  the branch of an overlay does not. The storage tables of a list of branches are the
  relations recorded this way, in the order of the branches.
\<close>

fun branch_table :: "base_relation \<Rightarrow> base_relation option" where
  "branch_table (SelectStmt n tg fc a opr l r (Some (RangeVar rel al)) pid d m sc) = Some rel"
| "branch_table q = None"

fun table_relations :: "base_relation list \<Rightarrow> base_relation list" where
  "table_relations [] = []"
| "table_relations (q # qs) =
     (case branch_table q of
        None \<Rightarrow> table_relations qs
      | Some rel \<Rightarrow> rel # table_relations qs)"

text \<open>
  The storage tables a returned pointer range is composed from: those of the branches of
  the chain when the range is a subquery, and the relation itself when the range is a
  table reference.
\<close>

fun range_table_relations :: "range_var \<Rightarrow> base_relation list" where
  "range_table_relations (RangeSubselect q a) = table_relations (chain_branches q)"
| "range_table_relations (RangeVar rel a) = [rel]"

text \<open>The elements of a list, each once, in the order of their first occurrence.\<close>

fun first_occurrences :: "'a list \<Rightarrow> 'a list" where
  "first_occurrences [] = []"
| "first_occurrences (x # xs) = x # filter (\<lambda>y. y \<noteq> x) (first_occurrences xs)"

text \<open>
  The storage-owning pointers of a link over a list of sources: the material pointer of
  every source that has the link, each pointer once, in the order the sources are
  visited. For a pointer, the sources are its source type and the descendants of that
  type.
\<close>

definition storage_pointers :: "s_schema \<Rightarrow> sobject list \<Rightarrow> sname \<Rightarrow> sobject list" where
  "storage_pointers sch sources linkname =
     first_occurrences
       (map (material_type sch) (List.map_filter (\<lambda>source. getptr sch source linkname) sources))"

definition ptrcls_storage_pointers :: "s_schema \<Rightarrow> sobject \<Rightarrow> sobject list" where
  "ptrcls_storage_pointers sch ptrcls =
     storage_pointers sch
       (remdups (get_source sch ptrcls # descendants sch (get_source sch ptrcls)))
       (get_shortname sch ptrcls)"

text \<open>The table of a storage-owning pointer, as \<open>table_from_ptrcls\<close> names it.\<close>

definition ptr_table_relation :: "s_schema \<Rightarrow> sobject \<Rightarrow> base_relation" where
  "ptr_table_relation sch ptrcls =
     Relation
       (if module (get_shortname sch ptrcls) = ''schema'' then ''edgedbss''
        else fst (get_backend_name sch ptrcls))
       (Some (snd (get_backend_name sch ptrcls))) None None"

subsection \<open>A table handle and a composite variable\<close>

definition ex_rvar :: range_var where
  "ex_rvar = RangeVar (Relation ''edgedb_test'' (Some ''User_data'') None None) (Alias ''User~1'' [])"


subsection \<open>A small schema and environment\<close>

text \<open>
  Object types \<open>User\<close> and \<open>Admin\<close> are concrete, \<open>Named\<close> is virtual with these two
  children, and \<open>Empty\<close> is virtual without children. The link \<open>friends\<close> is declared on
  \<open>Root\<close> and inherited by \<open>Child1\<close> and \<open>Child2\<close>, whose pointers share the storage of
  the pointer of \<open>Root\<close>; \<open>Other\<close> has no such link. The allocator appends a tilde and
  one mark for every identifier handed out before.
\<close>

definition ex_schema :: s_schema where
  "ex_schema =
     \<lparr> get_name = (\<lambda>obj. case obj of ObjectType n \<Rightarrow> SName ''test'' n | Link n \<Rightarrow> SName ''test'' n),
       get_shortname =
         (\<lambda>obj. case obj of
                  ObjectType n \<Rightarrow> SName ''test'' n
                | Link n \<Rightarrow> SName ''test'' (takeWhile (\<lambda>c. c \<noteq> CHR ''@'') n)),
       material_type =
         (\<lambda>obj. case obj of
                  ObjectType n \<Rightarrow> ObjectType n
                | Link n \<Rightarrow> Link (takeWhile (\<lambda>c. c \<noteq> CHR ''@'') n)),
       get_is_virtual = (\<lambda>obj. obj = ObjectType ''Named'' \<or> obj = ObjectType ''Empty''),
       children =
         (\<lambda>obj. if obj = ObjectType ''Named'' then [ObjectType ''User'', ObjectType ''Admin'']
                else []),
       descendants =
         (\<lambda>obj. if obj = ObjectType ''Root''
                then [ObjectType ''Child1'', ObjectType ''Other'', ObjectType ''Child2'']
                else []),
       getptr =
         (\<lambda>src nm. if nm = SName ''test'' ''friends''
                   then (if src = ObjectType ''Root'' then Some (Link ''friends'')
                         else if src = ObjectType ''Child1'' then Some (Link ''friends@Child1'')
                         else if src = ObjectType ''Child2'' then Some (Link ''friends@Child2'')
                         else None)
                   else None),
       get_source = (\<lambda>obj. ObjectType ''Root''),
       get_backend_name =
         (\<lambda>obj. case obj of
                  ObjectType n \<Rightarrow> (''edgedb_test'', n @ ''_data'')
                | Link n \<Rightarrow> (''edgedb_test'', n @ ''_link'')),
       get_pointer_storage_info = (\<lambda>obj. Inr ''std::target'') \<rparr>"

definition ex_aliases_get :: "string \<Rightarrow> string option \<Rightarrow> string \<times> string" where
  "ex_aliases_get s hint =
     ((case hint of None \<Rightarrow> ''a'' | Some h \<Rightarrow> h) @ ''~'' @ s, CHR ''i'' # s)"

definition ex_env :: "string environment" where
  "ex_env =
     \<lparr> schema = ex_schema, rel_overlays = (\<lambda>n. None), aliases = [],
       aliases_get = ex_aliases_get \<rparr>"

definition ex_cte :: "string \<Rightarrow> base_relation" where
  "ex_cte n = CommonTableExpr (Some n) empty_select None None"

text \<open>The four overlays \<open>union X\<close>, \<open>union Y\<close>, \<open>replace Z\<close>, \<open>union W\<close>, registered for \<open>User\<close>.\<close>

definition ex_env_user_overlays :: "string environment" where
  "ex_env_user_overlays =
     add_rel_overlay (ObjectType ''User'') ''union'' (ex_cte ''W'')
       (add_rel_overlay (ObjectType ''User'') ''replace'' (ex_cte ''Z'')
          (add_rel_overlay (ObjectType ''User'') ''union'' (ex_cte ''Y'')
             (add_rel_overlay (ObjectType ''User'') ''union'' (ex_cte ''X'') ex_env)))"

text \<open>The same four overlays under the short name of the link \<open>friends\<close>.\<close>

definition ex_env_link_overlays :: "string environment" where
  "ex_env_link_overlays =
     ex_env\<lparr>rel_overlays :=
       (rel_overlays ex_env)
         (SName ''test'' ''friends'' \<mapsto>
            [(''union'', ex_cte ''X''), (''union'', ex_cte ''Y''),
             (''replace'', ex_cte ''Z''), (''union'', ex_cte ''W'')])\<rparr>"

text \<open>
  The same catalog, except that every pointer owns its storage: the pointers of \<open>Root\<close>,
  \<open>Child1\<close> and \<open>Child2\<close> are then three storage-owning pointers.
\<close>

definition ex_env_own_storage :: "string environment" where
  "ex_env_own_storage = ex_env\<lparr>schema := ex_schema\<lparr>material_type := (\<lambda>obj. obj)\<rparr>\<rparr>"

section \<open>Properties\<close>

subsection \<open>Lemmas about column resolution\<close>

lemma get_rvar_var_elements_collect:
  "get_rvar_var_elements rvar els acc =
     (case collect (map (\<lambda>el. get_rvar_var rvar (el_name el) False None) els) of
        Inl e \<Rightarrow> Inl e
      | Inr vals \<Rightarrow> Inr (acc @ map2 resolved_element els vals))"
proof (induction els arbitrary: acc)
  case Nil
  show ?case by simp
next
  case (Cons el els)
  obtain pid nm v where el: "el = TupleElement pid nm v" by (cases el)
  show ?case
  proof (cases "get_rvar_var rvar nm False None")
    case (Inl e)
    then show ?thesis by (simp add: el)
  next
    case (Inr w)
    then show ?thesis
      by (simp add: el Cons.IH resolved_element_def split: sum.splits)
  qed
qed

lemma get_column_cases:
  "get_column rvar (ColName s) optional None = Inr (ColumnRef (column_name rvar s) (Some True) (Some optional))"
  "get_column rvar (ColName s) optional (Some b) = Inr (ColumnRef (column_name rvar s) (Some b) (Some optional))"
  "get_column rvar (ColRef (ColumnRef (ns @ [c]) nl ol)) optional None = Inr (ColumnRef (column_name rvar c) nl ol)"
  "get_column rvar (ColRef (ColumnRef (ns @ [c]) nl ol)) optional (Some b) = Inr (ColumnRef (column_name rvar c) (Some b) ol)"
  "get_column rvar (ColRef (ColumnRef [] nl ol)) optional nullable = Inl IndexError"
  by (cases ns; simp add: get_column_def)+









subsection \<open>Lemmas about the set combinator\<close>

lemma set_ops_loop_foldl:
  "set_ops_loop rest (select_all_larg q) =
     select_all_larg (foldl (\<lambda>acc (op', rel). set_op_node acc op' rel) q rest)"
proof (induction rest arbitrary: q)
  case Nil
  show ?case by simp
next
  case (Cons e rest)
  obtain op' rel where e: "e = (op', rel)" by (cases e)
  have "set_op_rarg (select_all_larg q) op' rel = set_op_node q op' rel"
    by (simp add: select_all_larg_def set_op_node_def)
  then show ?case by (simp add: e Cons.IH)
qed

lemma range_from_queryset_many:
  "range_from_queryset (e0 # e1 # rest) stype env =
     (case env_aliases_get env (Some (name (get_shortname (schema env) stype))) of
        (a, env') \<Rightarrow>
          Inr (RangeSubselect
                 (foldl (\<lambda>acc (op', rel). set_op_node acc op' rel) (snd e0) (e1 # rest))
                 (Alias a []), env'))"
proof -
  have "larg (set_ops_loop (e1 # rest) (select_all_larg (snd e0))) =
          Some (foldl (\<lambda>acc (op', rel). set_op_node acc op' rel) (snd e0) (e1 # rest))"
    by (simp only: set_ops_loop_foldl) (simp add: select_all_larg_def)
  then show ?thesis
    by (simp add: range_from_queryset_def del: foldl_Cons set_ops_loop.simps)
qed

lemma range_from_queryset_one:
  "range_from_queryset [(op', SelectStmt n tg (rvar # rvs) a opr l r rp pid d m sc)] stype env
     = Inr (rvar, env)"
  by (simp add: range_from_queryset_def)

lemma range_from_queryset_empty: "range_from_queryset [] stype env = Inl IndexError"
  by (simp add: range_from_queryset_def)

subsection \<open>Lemmas about the environment and the object-type synthesizer\<close>

lemma same_catalog_refl [simp]: "same_catalog env env"
  by (simp add: same_catalog_def)

lemma same_catalog_trans: "same_catalog a b \<Longrightarrow> same_catalog b c \<Longrightarrow> same_catalog a c"
  by (simp add: same_catalog_def)

lemma same_catalog_schema: "same_catalog env env' \<Longrightarrow> schema env' = schema env"
  by (simp add: same_catalog_def)

lemma same_catalog_rel_overlays: "same_catalog env env' \<Longrightarrow> rel_overlays env' = rel_overlays env"
  by (simp add: same_catalog_def)

lemma env_aliases_get_same_catalog:
  "env_aliases_get env hint = (a, env') \<Longrightarrow> same_catalog env env'"
  by (auto simp: env_aliases_get_def same_catalog_def split: prod.splits)

lemma is_branch_path_branch [simp]: "is_branch (path_branch rvar pid)"
  by (simp add: path_branch_def select_from_def)

lemma all_branches_simps [simp]:
  "all_branches []"
  "all_branches (e # es) = (is_branch (snd e) \<and> all_branches es)"
  "all_branches (xs @ ys) = (all_branches xs \<and> all_branches ys)"
  by (simp_all add: all_branches_def)

lemma range_from_queryset_same_catalog:
  "range_from_queryset set_ops stype env = Inr (rvar, env') \<Longrightarrow> same_catalog env env'"
  by (auto simp: range_from_queryset_def
      split: if_splits option.splits prod.splits list.splits base_relation.splits
      dest: env_aliases_get_same_catalog)

lemma range_from_queryset_succeeds:
  assumes "set_ops \<noteq> []" and "all_branches set_ops"
  shows "\<exists>rvar env'. range_from_queryset set_ops stype env = Inr (rvar, env')"
proof (cases set_ops)
  case Nil
  with assms show ?thesis by simp
next
  case (Cons e0 rest)
  show ?thesis
  proof (cases rest)
    case Nil
    obtain op' q where e0: "e0 = (op', q)" by (cases e0)
    from assms Cons Nil e0 have "is_branch q" by simp
    then obtain n tg rvar rvs a opr l r rp pid d m sc
      where "q = SelectStmt n tg (rvar # rvs) a opr l r rp pid d m sc"
      by (cases q rule: is_branch.cases) simp_all
    with Cons Nil e0 show ?thesis by (simp add: range_from_queryset_one)
  next
    case (Cons e1 rest')
    with \<open>set_ops = e0 # rest\<close> show ?thesis
      by (simp add: range_from_queryset_many split: prod.splits)
  qed
qed

lemma material_overlays_loop_branches:
  "set_ops \<noteq> [] \<Longrightarrow> all_branches set_ops \<Longrightarrow>
     material_overlays_loop overlays pid set_ops env = (res, env') \<Longrightarrow>
     res \<noteq> [] \<and> all_branches res \<and> same_catalog env env'"
proof (induction overlays arbitrary: set_ops env)
  case Nil
  then show ?case by simp
next
  case (Cons e overlays)
  obtain op' cte where e: "e = (op', cte)" by (cases e)
  obtain a env1 where al: "env_aliases_get env (rel_name cte) = (a, env1)"
    by (cases "env_aliases_get env (rel_name cte)")
  note sc = env_aliases_get_same_catalog [OF al]
  show ?case
  proof (cases "op' = ''replace''")
    case True
    with Cons.prems e al
    have "material_overlays_loop overlays pid
            [(''union'', path_branch (RangeVar cte (Alias a [])) pid)] env1 = (res, env')"
      by (simp add: Let_def)
    from Cons.IH [OF _ _ this] sc show ?thesis
      by (auto intro: same_catalog_trans)
  next
    case False
    with Cons.prems e al
    have "material_overlays_loop overlays pid
            (set_ops @ [(op', path_branch (RangeVar cte (Alias a [])) pid)]) env1 = (res, env')"
      by (simp add: Let_def)
    from Cons.IH [OF _ _ this] Cons.prems(1,2) sc show ?thesis
      by (auto intro: same_catalog_trans)
  qed
qed

lemma material_rvar_same_catalog:
  "material_rvar objtype pid env = (rvar, env') \<Longrightarrow> same_catalog env env'"
  by (auto simp: material_rvar_def Let_def split: prod.splits dest: env_aliases_get_same_catalog)

lemma range_for_material_objtype_succeeds:
  "\<exists>rvar env'. range_for_material_objtype objtype pid include_overlays env = Inr (rvar, env')"
proof -
  define ot where "ot = material_type (schema env) objtype"
  obtain rvar env1 where mr: "material_rvar ot pid env = (rvar, env1)"
    by (cases "material_rvar ot pid env")
  define ovs where "ovs = rel_overlays env1 (get_name (schema env) ot)"
  obtain set_ops env2 where ms: "material_set_ops rvar (overlay_list ovs) pid env1 = (set_ops, env2)"
    by (cases "material_set_ops rvar (overlay_list ovs) pid env1")
  have unfold: "range_for_material_objtype objtype pid include_overlays env =
      (if truthy ovs \<and> include_overlays then range_from_queryset set_ops ot env2
       else Inr (rvar, env1))"
    using mr ms by (simp add: range_for_material_objtype_def Let_def ot_def ovs_def)
  from ms have "material_overlays_loop (overlay_list ovs) pid
          [(''union'', path_branch rvar pid)] env1 = (set_ops, env2)"
    by (simp add: material_set_ops_def)
  from material_overlays_loop_branches [OF _ _ this]
  have "set_ops \<noteq> []" "all_branches set_ops" by simp_all
  from range_from_queryset_succeeds [OF this, of ot env2]
  show ?thesis unfolding unfold by auto
qed

lemma range_for_material_objtype_same_catalog:
  assumes "range_for_material_objtype objtype pid include_overlays env = Inr (rvar', env')"
  shows "same_catalog env env'"
proof -
  define ot where "ot = material_type (schema env) objtype"
  obtain rvar env1 where mr: "material_rvar ot pid env = (rvar, env1)"
    by (cases "material_rvar ot pid env")
  define ovs where "ovs = rel_overlays env1 (get_name (schema env) ot)"
  obtain set_ops env2 where ms: "material_set_ops rvar (overlay_list ovs) pid env1 = (set_ops, env2)"
    by (cases "material_set_ops rvar (overlay_list ovs) pid env1")
  have unfold: "range_for_material_objtype objtype pid include_overlays env =
      (if truthy ovs \<and> include_overlays then range_from_queryset set_ops ot env2
       else Inr (rvar, env1))"
    using mr ms by (simp add: range_for_material_objtype_def Let_def ot_def ovs_def)
  note sc1 = material_rvar_same_catalog [OF mr]
  from ms have "material_overlays_loop (overlay_list ovs) pid
          [(''union'', path_branch rvar pid)] env1 = (set_ops, env2)"
    by (simp add: material_set_ops_def)
  from material_overlays_loop_branches [OF _ _ this]
  have sc2: "same_catalog env1 env2" by simp
  show ?thesis
  proof (cases "truthy ovs \<and> include_overlays")
    case True
    with assms unfold have "range_from_queryset set_ops ot env2 = Inr (rvar', env')"
      by simp
    from range_from_queryset_same_catalog [OF this] sc1 sc2 show ?thesis
      by (blast intro: same_catalog_trans)
  next
    case False
    with assms unfold sc1 show ?thesis by auto
  qed
qed

subsection \<open>Lemmas about the object-type dispatcher\<close>

lemma marked_query:
  "is_distinct (set_path_id (set_is_distinct q True) pid) = Some True"
  "path_id (set_path_id (set_is_distinct q True) pid) = Some pid"
  by (cases q; simp)+

lemma rvar_query_map_rvar_query:
  "rvar_query (map_rvar_query (\<lambda>q. set_path_id (set_is_distinct q True) pid) rvar) =
     set_path_id (set_is_distinct (rvar_query rvar) True) pid"
proof (cases rvar)
  case (RangeVar rel a)
  then show ?thesis by (cases rel) simp_all
next
  case (RangeSubselect q a)
  then show ?thesis by simp
qed

lemma range_for_objtype_marked:
  assumes "range_for_objtype depth objtype pid include_overlays env = Inr (rvar, env')"
  shows "is_distinct (rvar_query rvar) = Some True \<and> path_id (rvar_query rvar) = Some pid"
proof (cases depth)
  case 0
  with assms show ?thesis by simp
next
  case (Suc d)
  with assms obtain rvar0 where
    "rvar = map_rvar_query (\<lambda>q. set_path_id (set_is_distinct q True) pid) rvar0"
    by (auto split: sum.splits if_splits)
  then show ?thesis by (simp add: rvar_query_map_rvar_query marked_query)
qed

lemma range_for_objtype_total:
  "objtype_resolves depth (schema env) objtype \<Longrightarrow>
     \<exists>rvar env'. range_for_objtype depth objtype pid include_overlays env = Inr (rvar, env')
        \<and> same_catalog env env'"
  "children_resolve depth (schema env) cs \<Longrightarrow> all_branches set_ops \<Longrightarrow>
     \<exists>res env'. children_loop depth cs pid include_overlays set_ops env = Inr (res, env')
        \<and> same_catalog env env' \<and> all_branches res
        \<and> length res = length set_ops + length cs"
proof (induction depth objtype pid include_overlays env
         and depth cs pid include_overlays set_ops env
       rule: range_for_objtype_children_loop.induct)
  case (1 objtype pid include_overlays env)
  then show ?case by simp
next
  case (2 depth objtype pid include_overlays env)
  show ?case
  proof (cases "get_is_virtual (schema env) objtype")
    case False
    obtain rvar env' where
      m: "range_for_material_objtype objtype pid include_overlays env = Inr (rvar, env')"
      using range_for_material_objtype_succeeds by blast
    from range_for_material_objtype_same_catalog [OF m] m False show ?thesis by simp
  next
    case True
    with "2.prems" have ch: "children (schema env) objtype \<noteq> []"
      and cr: "children_resolve depth (schema env) (remdups (children (schema env) objtype))"
      by simp_all
    from "2.IH" [OF _ cr] True obtain res env1 where
      loop: "children_loop depth (remdups (children (schema env) objtype)) pid include_overlays
               [] env = Inr (res, env1)"
      and sc1: "same_catalog env env1" and br: "all_branches res"
      and len: "length res = length (remdups (children (schema env) objtype))"
      by auto
    from ch len have "res \<noteq> []" by auto
    from range_from_queryset_succeeds [OF this br, of objtype env1]
    obtain rvar env' where q: "range_from_queryset res objtype env1 = Inr (rvar, env')"
      by blast
    from range_from_queryset_same_catalog [OF q] sc1 have "same_catalog env env'"
      by (rule same_catalog_trans [rotated])
    with True loop q show ?thesis by simp
  qed
next
  case (3 depth pid include_overlays set_ops env)
  then show ?case by simp
next
  case (4 depth child rest pid include_overlays set_ops env)
  from "4.prems" have c: "objtype_resolves depth (schema env) child"
    and r: "children_resolve depth (schema env) rest" by simp_all
  from "4.IH"(1) [OF c] obtain c_rvar env1 where
    rc: "range_for_objtype depth child pid include_overlays env = Inr (c_rvar, env1)"
    and sc1: "same_catalog env env1" by blast
  from r sc1 have r1: "children_resolve depth (schema env1) rest"
    by (simp add: same_catalog_schema)
  from "4.prems"(2) have br: "all_branches (set_ops @ [(''union'', path_branch c_rvar pid)])"
    by simp
  from "4.IH"(2) [OF rc refl r1 br] obtain res env' where
    "children_loop depth rest pid include_overlays
       (set_ops @ [(''union'', path_branch c_rvar pid)]) env1 = Inr (res, env')"
    "same_catalog env1 env'" "all_branches res"
    "length res = length (set_ops @ [(''union'', path_branch c_rvar pid)]) + length rest"
    by blast
  with rc sc1 show ?case by (auto intro: same_catalog_trans)
qed

subsection \<open>Lemmas about the overlays of an object type\<close>

lemma material_overlays_loop_no_replace:
  "\<forall>e\<in>set overlays. fst e \<noteq> ''replace'' \<Longrightarrow>
     \<exists>new. fst (material_overlays_loop overlays pid acc env) = acc @ new
       \<and> map fst new = map fst overlays"
proof (induction overlays arbitrary: acc env)
  case Nil
  then show ?case by simp
next
  case (Cons e overlays)
  obtain op' cte where e: "e = (op', cte)" by (cases e)
  obtain a env1 where al: "env_aliases_get env (rel_name cte) = (a, env1)"
    by (cases "env_aliases_get env (rel_name cte)")
  from Cons.prems e have nr: "op' \<noteq> ''replace''" and rest: "\<forall>e\<in>set overlays. fst e \<noteq> ''replace''"
    by simp_all
  from Cons.IH [OF rest, of "acc @ [(op', path_branch (RangeVar cte (Alias a [])) pid)]" env1]
  obtain new where
    "fst (material_overlays_loop overlays pid
            (acc @ [(op', path_branch (RangeVar cte (Alias a [])) pid)]) env1)
       = (acc @ [(op', path_branch (RangeVar cte (Alias a [])) pid)]) @ new"
    "map fst new = map fst overlays"
    by blast
  with nr e al show ?case by (simp add: Let_def)
qed

lemma material_set_ops_four:
  "\<exists>aZ aW. fst (material_set_ops rvar
                 [(''union'', X), (''union'', Y), (''replace'', Z), (''union'', W)] pid env) =
     [(''union'', path_branch (RangeVar Z (Alias aZ [])) pid),
      (''union'', path_branch (RangeVar W (Alias aW [])) pid)]"
  by (auto simp: material_set_ops_def Let_def split: prod.splits)

lemma range_for_material_objtype_four:
  assumes "rel_overlays env (get_name (schema env) (material_type (schema env) objtype)) =
             Some [(''union'', X), (''union'', Y), (''replace'', Z), (''union'', W)]"
  shows "\<exists>aZ aW a env'. range_for_material_objtype objtype pid True env =
           Inr (RangeSubselect
                  (set_op_node (path_branch (RangeVar Z (Alias aZ [])) pid) ''union''
                     (path_branch (RangeVar W (Alias aW [])) pid))
                  (Alias a []), env')"
proof -
  define ot where "ot = material_type (schema env) objtype"
  obtain rvar env1 where mr: "material_rvar ot pid env = (rvar, env1)"
    by (cases "material_rvar ot pid env")
  from material_rvar_same_catalog [OF mr] assms
  have ov: "rel_overlays env1 (get_name (schema env) ot) =
             Some [(''union'', X), (''union'', Y), (''replace'', Z), (''union'', W)]"
    by (simp add: same_catalog_def ot_def)
  obtain set_ops env2 where ms:
    "material_set_ops rvar [(''union'', X), (''union'', Y), (''replace'', Z), (''union'', W)]
       pid env1 = (set_ops, env2)"
    by (cases "material_set_ops rvar
                 [(''union'', X), (''union'', Y), (''replace'', Z), (''union'', W)] pid env1")
  from material_set_ops_four [of rvar X Y Z W pid env1] ms obtain aZ aW where
    so: "set_ops = [(''union'', path_branch (RangeVar Z (Alias aZ [])) pid),
                    (''union'', path_branch (RangeVar W (Alias aW [])) pid)]"
    by auto
  have "range_for_material_objtype objtype pid True env = range_from_queryset set_ops ot env2"
    using mr ms ov by (simp add: range_for_material_objtype_def Let_def ot_def)
  then show ?thesis
    by (auto simp: so range_from_queryset_many split: prod.splits)
qed

lemma ex_user_overlays:
  "rel_overlays ex_env_user_overlays
     (get_name (schema ex_env_user_overlays)
        (material_type (schema ex_env_user_overlays) (ObjectType ''User''))) =
     Some [(''union'', ex_cte ''X''), (''union'', ex_cte ''Y''),
           (''replace'', ex_cte ''Z''), (''union'', ex_cte ''W'')]"
  by (simp add: ex_env_user_overlays_def add_rel_overlay_def ex_env_def ex_schema_def)

subsection \<open>Lemmas about the pointer range synthesizer\<close>

lemma table_relations_append [simp]:
  "table_relations (xs @ ys) = table_relations xs @ table_relations ys"
  by (induction xs) (simp_all split: option.splits)

lemma branch_table_table_branch [simp]:
  "branch_table (ptrcls_table_branch (RangeVar rel a) cols) = Some rel"
  by (simp add: ptrcls_table_branch_def)

lemma branch_table_overlay_branch [simp]:
  "branch_table (ptrcls_overlay_branch rvar cols) = None"
  by (simp add: ptrcls_overlay_branch_def)

lemma chain_branches_table_branch [simp]:
  "chain_branches (ptrcls_table_branch table cols) = [ptrcls_table_branch table cols]"
  by (simp add: ptrcls_table_branch_def)

lemma chain_branches_overlay_branch [simp]:
  "chain_branches (ptrcls_overlay_branch rvar cols) = [ptrcls_overlay_branch rvar cols]"
  by (simp add: ptrcls_overlay_branch_def)

lemma chain_branches_foldl:
  "chain_branches (foldl (\<lambda>acc (op', rel). set_op_node acc op' rel) q rest) =
     chain_branches q @ map snd rest"
proof (induction rest arbitrary: q)
  case Nil
  show ?case by simp
next
  case (Cons e rest)
  obtain op' rel where e: "e = (op', rel)" by (cases e)
  have "chain_branches (set_op_node q op' rel) = chain_branches q @ [rel]"
    by (simp add: set_op_node_def)
  then show ?case by (simp add: e Cons.IH)
qed

lemma set_first_occurrences [simp]: "set (first_occurrences xs) = set xs"
  by (induction xs) auto

lemma distinct_first_occurrences [simp]: "distinct (first_occurrences xs)"
  by (induction xs) simp_all

lemma storage_pointers_Nil [simp]: "storage_pointers sch [] linkname = []"
  by (simp add: storage_pointers_def map_filter_simps)

lemma storage_pointers_Cons:
  "storage_pointers sch (source # rest) linkname =
     (case getptr sch source linkname of
        None \<Rightarrow> storage_pointers sch rest linkname
      | Some ptr \<Rightarrow>
          material_type sch ptr
            # filter (\<lambda>p. p \<noteq> material_type sch ptr) (storage_pointers sch rest linkname))"
  by (simp add: storage_pointers_def map_filter_simps split: option.splits)

lemma set_storage_pointers:
  "set (storage_pointers sch sources linkname) =
     {material_type sch ptr | ptr source.
        source \<in> set sources \<and> getptr sch source linkname = Some ptr}"
proof (induction sources)
  case Nil
  show ?case by simp
next
  case (Cons source rest)
  show ?case
  proof (cases "getptr sch source linkname")
    case None
    with Cons show ?thesis by (auto simp: storage_pointers_Cons)
  next
    case (Some ptr)
    with Cons show ?thesis by (auto simp: storage_pointers_Cons)
  qed
qed

lemma table_from_ptrcls_relation:
  "table_from_ptrcls p env = (table, env') \<Longrightarrow>
     \<exists>a. table = RangeVar (ptr_table_relation (schema env) p) a"
  by (auto simp: table_from_ptrcls_def ptr_table_relation_def Let_def split: prod.splits)

lemma table_from_ptrcls_same_catalog:
  "table_from_ptrcls ptrcls env = (table, env') \<Longrightarrow> same_catalog env env'"
  by (auto simp: table_from_ptrcls_def Let_def split: prod.splits dest: env_aliases_get_same_catalog)

lemma ptrcls_overlays_loop_appends:
  "ptrcls_overlays_loop overlays cols set_ops env = (res, env') \<Longrightarrow>
     \<exists>new. res = set_ops @ new
       \<and> length new = length overlays
       \<and> table_relations (map snd new) = []
       \<and> (\<forall>e\<in>set new. chain_branches (snd e) = [snd e])
       \<and> same_catalog env env'"
proof (induction overlays arbitrary: set_ops env)
  case Nil
  then show ?case by simp
next
  case (Cons e overlays)
  obtain op' cte where e: "e = (op', cte)" by (cases e)
  obtain a env1 where al: "env_aliases_get env (rel_name cte) = (a, env1)"
    by (cases "env_aliases_get env (rel_name cte)")
  let ?b = "(op', ptrcls_overlay_branch (RangeVar cte (Alias a [])) cols)"
  from Cons.prems e al have
    "ptrcls_overlays_loop overlays cols (set_ops @ [?b]) env1 = (res, env')"
    by simp
  from Cons.IH [OF this] obtain new where
    new: "res = (set_ops @ [?b]) @ new" "length new = length overlays"
      "table_relations (map snd new) = []"
      "\<forall>e\<in>set new. chain_branches (snd e) = [snd e]"
      "same_catalog env1 env'"
    by blast
  have "res = set_ops @ (?b # new)" using new(1) by simp
  moreover have "length (?b # new) = length (e # overlays)" using new(2) by simp
  moreover have "table_relations (map snd (?b # new)) = []" using new(3) by simp
  moreover have "\<forall>e\<in>set (?b # new). chain_branches (snd e) = [snd e]" using new(4) by simp
  moreover have "same_catalog env env'"
    using env_aliases_get_same_catalog [OF al] new(5) by (rule same_catalog_trans)
  ultimately show ?case by blast
qed

lemma filter_unseen_new:
  "p \<notin> seen \<Longrightarrow>
     filter (\<lambda>q. q \<notin> seen) (p # filter (\<lambda>q. q \<noteq> p) xs) = p # filter (\<lambda>q. q \<notin> insert p seen) xs"
  by (induction xs) auto

lemma filter_unseen_old:
  "p \<in> seen \<Longrightarrow>
     filter (\<lambda>q. q \<notin> seen) (p # filter (\<lambda>q. q \<noteq> p) xs) = filter (\<lambda>q. q \<notin> seen) xs"
  by (induction xs) auto

lemma ptrcls_sources_loop_branches:
  "ptrcls_sources_loop sources linkname cols include_overlays acc seen env = (res, seen', env')
   \<Longrightarrow> \<exists>new. res = acc @ new
         \<and> table_relations (map snd new) =
             map (ptr_table_relation (schema env))
               (filter (\<lambda>p. p \<notin> seen) (storage_pointers (schema env) sources linkname))
         \<and> (\<forall>e\<in>set new. chain_branches (snd e) = [snd e])
         \<and> (new \<noteq> [] \<longrightarrow>
               (\<exists>rel a rest. new = (''union'', ptrcls_table_branch (RangeVar rel a) cols) # rest))
         \<and> (\<not> include_overlays \<longrightarrow>
               length new =
                 length (filter (\<lambda>p. p \<notin> seen) (storage_pointers (schema env) sources linkname)))
         \<and> same_catalog env env'"
proof (induction sources arbitrary: acc seen env)
  case Nil
  then show ?case by simp
next
  case (Cons source rest)
  show ?case
  proof (cases "getptr (schema env) source linkname")
    case None
    with Cons.prems have
      "ptrcls_sources_loop rest linkname cols include_overlays acc seen env = (res, seen', env')"
      by simp
    from Cons.IH [OF this] None show ?thesis
      by (simp add: storage_pointers_Cons)
  next
    case (Some ptr)
    define p where "p = material_type (schema env) ptr"
    have SC: "storage_pointers (schema env) (source # rest) linkname =
                p # filter (\<lambda>q. q \<noteq> p) (storage_pointers (schema env) rest linkname)"
      using Some by (simp add: storage_pointers_Cons p_def)
    show ?thesis
    proof (cases "p \<in> seen")
      case True
      with Cons.prems Some have
        "ptrcls_sources_loop rest linkname cols include_overlays acc seen env = (res, seen', env')"
        by (simp add: p_def)
      from Cons.IH [OF this] show ?thesis
        unfolding SC filter_unseen_old [OF True] .
    next
      case False
      obtain table env1 where tb: "table_from_ptrcls p env = (table, env1)"
        by (cases "table_from_ptrcls p env")
      note sc1 = table_from_ptrcls_same_catalog [OF tb]
      from table_from_ptrcls_relation [OF tb] obtain a where
        table: "table = RangeVar (ptr_table_relation (schema env) p) a" by blast
      define b where "b = (''union'', ptrcls_table_branch table cols)"
      define set_ops1 where "set_ops1 = acc @ [b]"
      define ovs where "ovs = rel_overlays env1 (get_shortname (schema env1) p)"
      obtain set_ops2 env2 where ov:
        "(if truthy ovs \<and> include_overlays
          then ptrcls_overlays_loop (overlay_list ovs) cols set_ops1 env1
          else (set_ops1, env1)) = (set_ops2, env2)"
        by (cases "if truthy ovs \<and> include_overlays
          then ptrcls_overlays_loop (overlay_list ovs) cols set_ops1 env1
          else (set_ops1, env1)")
      have "\<exists>ov_new. set_ops2 = set_ops1 @ ov_new
              \<and> table_relations (map snd ov_new) = []
              \<and> (\<forall>e\<in>set ov_new. chain_branches (snd e) = [snd e])
              \<and> (\<not> include_overlays \<longrightarrow> ov_new = [])
              \<and> same_catalog env1 env2"
      proof (cases "truthy ovs \<and> include_overlays")
        case True
        with ov have "ptrcls_overlays_loop (overlay_list ovs) cols set_ops1 env1 = (set_ops2, env2)"
          by simp
        from ptrcls_overlays_loop_appends [OF this] True show ?thesis by blast
      next
        case False
        with ov have "set_ops2 = set_ops1 @ []" "env2 = env1" by simp_all
        then show ?thesis by (intro exI [of _ "[]"]) simp
      qed
      then obtain ov_new where
        o1: "set_ops2 = set_ops1 @ ov_new"
        and o2: "table_relations (map snd ov_new) = []"
        and o3: "\<forall>e\<in>set ov_new. chain_branches (snd e) = [snd e]"
        and o4: "\<not> include_overlays \<longrightarrow> ov_new = []"
        and sc2: "same_catalog env1 env2"
        by blast
      have step: "ptrcls_sources_loop (source # rest) linkname cols include_overlays acc seen env =
          (case (if truthy ovs \<and> include_overlays
                 then ptrcls_overlays_loop (overlay_list ovs) cols set_ops1 env1
                 else (set_ops1, env1)) of
             (set_ops2, env2) \<Rightarrow>
               ptrcls_sources_loop rest linkname cols include_overlays set_ops2
                 (insert p seen) env2)"
        using Some False tb by (simp add: p_def ovs_def set_ops1_def b_def Let_def)
      have rest: "ptrcls_sources_loop rest linkname cols include_overlays set_ops2
                    (insert p seen) env2 = (res, seen', env')"
        using Cons.prems unfolding step ov by simp
      have sch2: "schema env2 = schema env"
        using sc1 sc2 by (simp add: same_catalog_def)
      from Cons.IH [OF rest] obtain new' where
        n1: "res = set_ops2 @ new'"
        and n2: "table_relations (map snd new') =
                   map (ptr_table_relation (schema env))
                     (filter (\<lambda>q. q \<notin> insert p seen) (storage_pointers (schema env) rest linkname))"
        and n3: "\<forall>e\<in>set new'. chain_branches (snd e) = [snd e]"
        and n5: "\<not> include_overlays \<longrightarrow>
                   length new' = length (filter (\<lambda>q. q \<notin> insert p seen)
                                           (storage_pointers (schema env) rest linkname))"
        and sc3: "same_catalog env2 env'"
        unfolding sch2 by blast
      define new where "new = b # ov_new @ new'"
      have r1: "res = acc @ new"
        using n1 o1 by (simp add: new_def set_ops1_def)
      have r2: "table_relations (map snd new) =
                  map (ptr_table_relation (schema env))
                    (filter (\<lambda>q. q \<notin> seen) (storage_pointers (schema env) (source # rest) linkname))"
        unfolding SC filter_unseen_new [OF False]
        using n2 o2 by (simp add: new_def b_def table)
      have r3: "\<forall>e\<in>set new. chain_branches (snd e) = [snd e]"
        using n3 o3 by (auto simp: new_def b_def)
      have r4: "new \<noteq> [] \<longrightarrow>
                  (\<exists>rel a rest. new = (''union'', ptrcls_table_branch (RangeVar rel a) cols) # rest)"
        by (auto simp: new_def b_def table)
      have r5: "\<not> include_overlays \<longrightarrow>
                  length new = length (filter (\<lambda>q. q \<notin> seen)
                                         (storage_pointers (schema env) (source # rest) linkname))"
        unfolding SC filter_unseen_new [OF False]
        using n5 o4 by (simp add: new_def)
      have r6: "same_catalog env env'"
        using sc1 sc2 sc3 by (blast intro: same_catalog_trans)
      from r1 r2 r3 r4 r5 r6 show ?thesis by blast
    qed
  qed
qed

lemma range_for_ptrcls_set_ops:
  assumes "get_pointer_storage_info (schema env) ptrcls = Inr tgt_col"
  obtains set_ops env1 where
    "range_for_ptrcls ptrcls direction include_overlays env =
       range_from_queryset set_ops ptrcls env1"
    and "table_relations (map snd set_ops) =
       map (ptr_table_relation (schema env)) (ptrcls_storage_pointers (schema env) ptrcls)"
    and "set_ops \<noteq> [] \<longrightarrow>
       (\<exists>rel a rest. set_ops = (''union'', ptrcls_table_branch (RangeVar rel a)
                                         [''std::source'', tgt_col]) # rest)"
    and "\<not> include_overlays \<longrightarrow>
       length set_ops = length (ptrcls_storage_pointers (schema env) ptrcls)"
proof -
  let ?sources = "remdups (get_source (schema env) ptrcls
                    # descendants (schema env) (get_source (schema env) ptrcls))"
  let ?loop = "ptrcls_sources_loop ?sources (get_shortname (schema env) ptrcls)
                 [''std::source'', tgt_col] include_overlays [] {} env"
  obtain set_ops ptrclses env1 where l: "?loop = (set_ops, ptrclses, env1)"
    by (cases ?loop)
  have r: "range_for_ptrcls ptrcls direction include_overlays env =
             range_from_queryset set_ops ptrcls env1"
    using assms l by (simp add: range_for_ptrcls_def Let_def del: remdups.simps)
  have sp: "filter (\<lambda>p. p \<notin> {})
              (storage_pointers (schema env) ?sources (get_shortname (schema env) ptrcls)) =
            ptrcls_storage_pointers (schema env) ptrcls"
    by (simp add: ptrcls_storage_pointers_def del: remdups.simps)
  from ptrcls_sources_loop_branches [OF l] obtain new where
    n: "set_ops = [] @ new"
      "table_relations (map snd new) =
         map (ptr_table_relation (schema env))
           (filter (\<lambda>p. p \<notin> {})
              (storage_pointers (schema env) ?sources (get_shortname (schema env) ptrcls)))"
      "new \<noteq> [] \<longrightarrow>
         (\<exists>rel a rest. new = (''union'', ptrcls_table_branch (RangeVar rel a)
                                     [''std::source'', tgt_col]) # rest)"
      "\<not> include_overlays \<longrightarrow>
         length new = length (filter (\<lambda>p. p \<notin> {})
              (storage_pointers (schema env) ?sources (get_shortname (schema env) ptrcls)))"
    by (elim exE conjE)
  from n(1) have eq: "new = set_ops" by simp
  show thesis
    using r n(2-4) unfolding sp eq by (rule that)
qed

lemma range_from_queryset_table_one:
  "range_from_queryset [(op', ptrcls_table_branch table cols)] stype env = Inr (table, env)"
  unfolding ptrcls_table_branch_def by (rule range_from_queryset_one)

lemma range_from_queryset_leaf_many:
  assumes "chain_branches (snd e0) = [snd e0]"
  shows "\<exists>q a env'. range_from_queryset (e0 # e1 # rest) stype env = Inr (RangeSubselect q a, env')
           \<and> chain_branches q = map snd (e0 # e1 # rest)"
proof -
  obtain al env' where ag:
    "env_aliases_get env (Some (name (get_shortname (schema env) stype))) = (al, env')"
    by (cases "env_aliases_get env (Some (name (get_shortname (schema env) stype)))")
  define qq where
    "qq = foldl (\<lambda>acc (op', rel). set_op_node acc op' rel) (snd e0) (e1 # rest)"
  have q: "range_from_queryset (e0 # e1 # rest) stype env =
             Inr (RangeSubselect qq (Alias al []), env')"
    unfolding qq_def by (simp only: range_from_queryset_many ag prod.case)
  have "chain_branches qq = chain_branches (snd e0) @ map snd (e1 # rest)"
    unfolding qq_def by (rule chain_branches_foldl)
  with assms have "chain_branches qq = map snd (e0 # e1 # rest)" by simp
  with q show ?thesis by blast
qed


lemma range_for_ptrcls_result:
  assumes gi: "get_pointer_storage_info (schema env) ptrcls = Inr tgt_col"
  shows "\<exists>n. (\<not> incl \<longrightarrow> n = length (ptrcls_storage_pointers (schema env) ptrcls))
     \<and> (ptrcls_storage_pointers (schema env) ptrcls = []
          \<longrightarrow> range_for_ptrcls ptrcls direction incl env = Inl IndexError)
     \<and> (ptrcls_storage_pointers (schema env) ptrcls \<noteq> []
          \<longrightarrow> (\<exists>rvar env'. range_for_ptrcls ptrcls direction incl env = Inr (rvar, env')
                 \<and> range_table_relations rvar =
                     map (ptr_table_relation (schema env))
                       (ptrcls_storage_pointers (schema env) ptrcls)
                 \<and> (n = 1 \<longrightarrow> (\<exists>rel a. rvar = RangeVar rel a))
                 \<and> (1 < n \<longrightarrow>
                       (\<exists>q a. rvar = RangeSubselect q a \<and> length (chain_branches q) = n))))"
proof -
  define sp where "sp = ptrcls_storage_pointers (schema env) ptrcls"
  define tabs where "tabs = map (ptr_table_relation (schema env)) sp"
  define result where "result = range_for_ptrcls ptrcls direction incl env"
  obtain set_ops env1 where
    r: "result = range_from_queryset set_ops ptrcls env1"
    and tr: "table_relations (map snd set_ops) = tabs"
    and hd: "set_ops \<noteq> [] \<longrightarrow>
               (\<exists>rel a rest. set_ops = (''union'', ptrcls_table_branch (RangeVar rel a)
                                                 [''std::source'', tgt_col]) # rest)"
    and ln: "\<not> incl \<longrightarrow> length set_ops = length sp"
    unfolding sp_def tabs_def result_def
    by (rule range_for_ptrcls_set_ops [OF gi, of direction incl])
  have tabs_Nil: "(tabs = []) = (sp = [])" by (simp add: tabs_def)
  have empty: "result = Inl IndexError" if e: "sp = []"
  proof (cases set_ops)
    case Nil
    with r show ?thesis by (simp add: range_from_queryset_empty)
  next
    case (Cons e0 rest0)
    with hd obtain rel a rest where
      "set_ops = (''union'', ptrcls_table_branch (RangeVar rel a) [''std::source'', tgt_col]) # rest"
      by blast
    then have "table_relations (map snd set_ops) \<noteq> []" by simp
    with tr tabs_Nil e show ?thesis by simp
  qed
  have nonempty: "\<exists>rvar env'. result = Inr (rvar, env')
          \<and> range_table_relations rvar = tabs
          \<and> (length set_ops = 1 \<longrightarrow> (\<exists>rel a. rvar = RangeVar rel a))
          \<and> (1 < length set_ops \<longrightarrow>
                (\<exists>q a. rvar = RangeSubselect q a \<and> length (chain_branches q) = length set_ops))"
    if ne: "sp \<noteq> []"
  proof -
    have "set_ops \<noteq> []"
    proof
      assume "set_ops = []"
      then have "table_relations (map snd set_ops) = []" by simp
      with tr tabs_Nil ne show False by simp
    qed
    with hd obtain rel a rest where
      so: "set_ops = (''union'', ptrcls_table_branch (RangeVar rel a) [''std::source'', tgt_col]) # rest"
      by blast
    show ?thesis
    proof (cases rest)
      case Nil
      have q: "result = Inr (RangeVar rel a, env1)"
        unfolding r so Nil by (rule range_from_queryset_table_one)
      have "table_relations (map snd set_ops) = [rel]"
        unfolding so Nil by simp
      with tr have t: "range_table_relations (RangeVar rel a) = tabs" by simp
      have l1: "\<not> 1 < length set_ops" unfolding so Nil by simp
      from q t l1 show ?thesis by blast
    next
      case (Cons e1 rest')
      let ?e0 = "(''union'', ptrcls_table_branch (RangeVar rel a) [''std::source'', tgt_col])"
      have leaf: "chain_branches (snd ?e0) = [snd ?e0]" by simp
      from range_from_queryset_leaf_many [OF leaf, of e1 rest' ptrcls env1]
      obtain q al env' where
        q: "range_from_queryset (?e0 # e1 # rest') ptrcls env1 = Inr (RangeSubselect q al, env')"
        and cb: "chain_branches q = map snd (?e0 # e1 # rest')"
        by blast
      have res: "result = Inr (RangeSubselect q al, env')"
        unfolding r so Cons by (rule q)
      have cb': "chain_branches q = map snd set_ops"
        unfolding so Cons by (rule cb)
      have t: "range_table_relations (RangeSubselect q al) = tabs"
        using tr by (simp add: cb')
      have l2: "length set_ops \<noteq> 1" unfolding so Cons by simp
      have l3: "length (chain_branches q) = length set_ops" by (simp add: cb')
      from res t l2 l3 show ?thesis by blast
    qed
  qed
  show ?thesis
    unfolding sp_def [symmetric] tabs_def [symmetric] result_def [symmetric]
  proof (intro exI [of _ "length set_ops"] conjI impI)
    show "length set_ops = length sp" if "\<not> incl" using ln that by simp
    show "result = Inl IndexError" if "sp = []"
      using empty that .
    show "\<exists>rvar env'. result = Inr (rvar, env')
          \<and> range_table_relations rvar = tabs
          \<and> (length set_ops = 1 \<longrightarrow> (\<exists>rel a. rvar = RangeVar rel a))
          \<and> (1 < length set_ops \<longrightarrow>
                (\<exists>q a. rvar = RangeSubselect q a \<and> length (chain_branches q) = length set_ops))"
      if "sp \<noteq> []"
      using nonempty that .
  qed
qed

subsection \<open>Claim C1: overlays of a concrete object type\<close>

text \<open>
  C1, as the code has it. With the overlays \<open>union X\<close>, \<open>union Y\<close>, \<open>replace Z\<close>,
  \<open>union W\<close> registered for a concrete object type and overlays included, the branch list
  handed to the set combinator is \<open>[Z, W]\<close>, and the range returned is the subquery of
  \<open>Z union W\<close>: a \<open>replace\<close> entry empties the list built so far, the base storage branch
  included, and continues as a \<open>union\<close> branch. The base branch is the first branch when
  no entry is a \<open>replace\<close>.
\<close>

theorem range_for_material_objtype_replace_resets:
  "(\<exists>aZ aW. fst (material_set_ops rvar
                  [(''union'', X), (''union'', Y), (''replace'', Z), (''union'', W)] pid env) =
      [(''union'', path_branch (RangeVar Z (Alias aZ [])) pid),
       (''union'', path_branch (RangeVar W (Alias aW [])) pid)])
   \<and> (rel_overlays env (get_name (schema env) (material_type (schema env) objtype)) =
        Some [(''union'', X), (''union'', Y), (''replace'', Z), (''union'', W)]
      \<longrightarrow> (\<exists>aZ aW a env'. range_for_material_objtype objtype pid True env =
             Inr (RangeSubselect
                    (set_op_node (path_branch (RangeVar Z (Alias aZ [])) pid) ''union''
                       (path_branch (RangeVar W (Alias aW [])) pid))
                    (Alias a []), env')))
   \<and> material_overlays_loop ((''replace'', Z) # rest) pid acc env =
       material_overlays_loop ((''replace'', Z) # rest) pid [] env
   \<and> ((\<forall>e\<in>set overlays. fst e \<noteq> ''replace'')
      \<longrightarrow> (\<exists>new. fst (material_set_ops rvar overlays pid env) =
                   (''union'', path_branch rvar pid) # new
             \<and> map fst new = map fst overlays))"
proof (intro conjI impI)
  show "\<exists>aZ aW. fst (material_set_ops rvar
                  [(''union'', X), (''union'', Y), (''replace'', Z), (''union'', W)] pid env) =
      [(''union'', path_branch (RangeVar Z (Alias aZ [])) pid),
       (''union'', path_branch (RangeVar W (Alias aW [])) pid)]"
    by (rule material_set_ops_four)
next
  assume "rel_overlays env (get_name (schema env) (material_type (schema env) objtype)) =
        Some [(''union'', X), (''union'', Y), (''replace'', Z), (''union'', W)]"
  then show "\<exists>aZ aW a env'. range_for_material_objtype objtype pid True env =
             Inr (RangeSubselect
                    (set_op_node (path_branch (RangeVar Z (Alias aZ [])) pid) ''union''
                       (path_branch (RangeVar W (Alias aW [])) pid))
                    (Alias a []), env')"
    by (rule range_for_material_objtype_four)
next
  show "material_overlays_loop ((''replace'', Z) # rest) pid acc env =
       material_overlays_loop ((''replace'', Z) # rest) pid [] env"
    by (simp add: Let_def)
next
  assume "\<forall>e\<in>set overlays. fst e \<noteq> ''replace''"
  from material_overlays_loop_no_replace [OF this, of pid "[(''union'', path_branch rvar pid)]" env]
  show "\<exists>new. fst (material_set_ops rvar overlays pid env) =
                   (''union'', path_branch rvar pid) # new
             \<and> map fst new = map fst overlays"
    by (simp add: material_set_ops_def)
qed

text \<open>
  An instance of C1: the four overlays registered for \<open>User\<close> through
  \<open>add_rel_overlay\<close>, and a list of two overlays without a \<open>replace\<close>.
\<close>

theorem range_for_material_objtype_replace_resets_witness:
  "rel_overlays ex_env_user_overlays
     (get_name (schema ex_env_user_overlays)
        (material_type (schema ex_env_user_overlays) (ObjectType ''User''))) =
     Some [(''union'', ex_cte ''X''), (''union'', ex_cte ''Y''),
           (''replace'', ex_cte ''Z''), (''union'', ex_cte ''W'')]
   \<and> (\<exists>aZ aW a env'.
         range_for_material_objtype (ObjectType ''User'') ''p'' True ex_env_user_overlays =
           Inr (RangeSubselect
                  (set_op_node (path_branch (RangeVar (ex_cte ''Z'') (Alias aZ [])) ''p'') ''union''
                     (path_branch (RangeVar (ex_cte ''W'') (Alias aW [])) ''p''))
                  (Alias a []), env'))
   \<and> fst (''union'', ex_cte ''X'') \<noteq> ''replace''
   \<and> fst (''except'', ex_cte ''Y'') \<noteq> ''replace''
   \<and> (\<exists>new. fst (material_set_ops ex_rvar
                   [(''union'', ex_cte ''X''), (''except'', ex_cte ''Y'')] ''p'' ex_env) =
               (''union'', path_branch ex_rvar ''p'') # new
         \<and> map fst new = [''union'', ''except''])"
proof -
  note h1 = ex_user_overlays
  have h2: "\<forall>e\<in>set [(''union'', ex_cte ''X''), (''except'', ex_cte ''Y'')]. fst e \<noteq> ''replace''"
    by simp
  show ?thesis
    using h1 h2
      range_for_material_objtype_replace_resets
        [of ex_rvar "ex_cte ''X''" "ex_cte ''Y''" "ex_cte ''Z''" "ex_cte ''W''" "''p''"
            ex_env_user_overlays "ObjectType ''User''" "[]" "[]"
            "[(''union'', ex_cte ''X''), (''except'', ex_cte ''Y'')]"]
      range_for_material_objtype_replace_resets
        [of ex_rvar "ex_cte ''X''" "ex_cte ''Y''" "ex_cte ''Z''" "ex_cte ''W''" "''p''"
            ex_env "ObjectType ''User''" "[]" "[]"
            "[(''union'', ex_cte ''X''), (''except'', ex_cte ''Y'')]"]
    by simp
qed

text \<open>
  C1 as stated fails: for \<open>User\<close> with the four overlays registered, the chain of the
  returned subquery has the two branches \<open>Z\<close> and \<open>W\<close>, and no branch over the table of
  \<open>User\<close>.
\<close>

theorem range_for_material_objtype_replace_counterexample:
  "map_sum id (\<lambda>r. chain_branches (rvar_query (fst r)))
     (range_for_material_objtype (ObjectType ''User'') ''p'' True ex_env_user_overlays) =
   Inr [path_branch (RangeVar (ex_cte ''Z'') (Alias ''Z~iii'' [])) ''p'',
        path_branch (RangeVar (ex_cte ''W'') (Alias ''W~iiii'' [])) ''p'']"
  by (simp add: range_for_material_objtype_def material_rvar_def material_set_ops_def
      range_from_queryset_def env_aliases_get_def ex_env_user_overlays_def add_rel_overlay_def
      ex_env_def ex_schema_def ex_aliases_get_def ex_cte_def select_all_larg_def
      path_branch_def select_from_def empty_select_def Let_def)

subsection \<open>Claim C2: the set combinator on an empty branch list\<close>

text \<open>
  C2, as the code has it. On an empty branch list the set combinator fails with
  \<open>IndexError\<close>, the error of the unguarded read \<^verbatim>\<open>set_ops[0]\<close>, and returns no range;
  the dispatcher fails in the same way on a virtual type without children.
\<close>

theorem range_from_queryset_empty_index_error:
  "range_from_queryset [] stype env = Inl IndexError
   \<and> (get_is_virtual (schema env) objtype \<and> children (schema env) objtype = []
      \<longrightarrow> range_for_objtype (Suc depth) objtype pid include_overlays env = Inl IndexError)"
  by (simp add: range_from_queryset_empty)

text \<open>An instance of C2: the virtual type \<open>Empty\<close>, which has no children.\<close>

theorem range_from_queryset_empty_index_error_witness:
  "get_is_virtual (schema ex_env) (ObjectType ''Empty'')
   \<and> children (schema ex_env) (ObjectType ''Empty'') = []
   \<and> range_for_objtype (Suc 0) (ObjectType ''Empty'') ''p'' True ex_env = Inl IndexError"
proof -
  have h: "get_is_virtual (schema ex_env) (ObjectType ''Empty'')
             \<and> children (schema ex_env) (ObjectType ''Empty'') = []"
    by (simp add: ex_env_def ex_schema_def)
  show ?thesis
    using h range_from_queryset_empty_index_error
        [of "ObjectType ''Empty''" ex_env "ObjectType ''Empty''" 0 "''p''" True]
    by blast
qed

text \<open>C2 as stated fails: the error on the empty branch list is not \<open>EmptyCompositionError\<close>.\<close>

theorem range_from_queryset_empty_counterexample:
  "range_from_queryset [] (ObjectType ''Empty'') ex_env = Inl IndexError
   \<and> range_from_queryset [] (ObjectType ''Empty'') ex_env \<noteq> Inl EmptyCompositionError"
  by (simp add: range_from_queryset_def)

subsection \<open>Claim C4: a \<open>replace\<close> overlay of a pointer\<close>

text \<open>
  C4 says that in the pointer range synthesizer, as in the object-type synthesizer, an
  overlay entry with the operation \<open>replace\<close> discards the branches accumulated before
  it. The code does this for an object type only. Evaluated on the link \<open>friends\<close> with
  the overlays \<open>union X\<close>, \<open>union Y\<close>, \<open>replace Z\<close>, \<open>union W\<close> registered under
  the short name of the link, \<open>range_for_ptrcls\<close> returns a chain of five branches: the
  table of the link, \<open>X\<close>, \<open>Y\<close>, \<open>Z\<close> and \<open>W\<close>, where \<open>Z\<close> is combined by the
  operation \<open>replace\<close> itself. On the same four overlays registered for the object type
  \<open>User\<close>, \<open>range_for_material_objtype\<close> returns the chain of \<open>Z\<close> and \<open>W\<close>.
\<close>

theorem range_for_ptrcls_replace_not_reset:
  "map_sum id (\<lambda>r. chain_ops (rvar_query (fst r)))
     (range_for_ptrcls (Link ''friends'') Outbound True ex_env_link_overlays) =
   Inr [''union'', ''union'', ''replace'', ''union'']
   \<and> map_sum id (\<lambda>r. map (\<lambda>q. map relation (from_clause q)) (chain_branches (rvar_query (fst r))))
     (range_for_ptrcls (Link ''friends'') Outbound True ex_env_link_overlays) =
   Inr [[Relation ''edgedb_test'' (Some ''friends_link'') None None],
        [ex_cte ''X''], [ex_cte ''Y''], [ex_cte ''Z''], [ex_cte ''W'']]
   \<and> map_sum id (\<lambda>r. map (\<lambda>q. map relation (from_clause q)) (chain_branches (rvar_query (fst r))))
     (range_for_material_objtype (ObjectType ''User'') ''p'' True ex_env_user_overlays) =
   Inr [[ex_cte ''Z''], [ex_cte ''W'']]"
  by (simp add: range_for_ptrcls_def table_from_ptrcls_def ptrcls_table_branch_def
      ptrcls_overlay_branch_def range_for_material_objtype_def material_rvar_def
      material_set_ops_def path_branch_def select_from_def
      range_from_queryset_def env_aliases_get_def ex_env_link_overlays_def
      ex_env_user_overlays_def add_rel_overlay_def
      ex_env_def ex_schema_def ex_aliases_get_def ex_cte_def select_all_larg_def
      empty_select_def Let_def)

subsection \<open>Claim C5: the postcondition of the object-type dispatcher\<close>

text \<open>
  C5: every range the object-type dispatcher returns has a query marked
  \<open>is_distinct = True\<close> and stamped with the given path identifier, for a virtual and for
  a concrete type alike; and the dispatcher does return a range for every object type
  that resolves within the call depth.
\<close>

theorem range_for_objtype_distinct_path_id:
  "(range_for_objtype depth objtype pid include_overlays env = Inr (rvar, env')
      \<longrightarrow> is_distinct (rvar_query rvar) = Some True \<and> path_id (rvar_query rvar) = Some pid)
   \<and> (objtype_resolves depth (schema env) objtype
      \<longrightarrow> (\<exists>rvar env'. range_for_objtype depth objtype pid include_overlays env = Inr (rvar, env')
             \<and> is_distinct (rvar_query rvar) = Some True
             \<and> path_id (rvar_query rvar) = Some pid))"
proof (intro conjI impI)
  assume "range_for_objtype depth objtype pid include_overlays env = Inr (rvar, env')"
  from range_for_objtype_marked [OF this]
  show "is_distinct (rvar_query rvar) = Some True" and "path_id (rvar_query rvar) = Some pid"
    by simp_all
next
  assume "objtype_resolves depth (schema env) objtype"
  from range_for_objtype_total(1) [OF this, of pid include_overlays]
  obtain r e where res: "range_for_objtype depth objtype pid include_overlays env = Inr (r, e)"
    by blast
  from range_for_objtype_marked [OF res] res
  show "\<exists>rvar env'. range_for_objtype depth objtype pid include_overlays env = Inr (rvar, env')
          \<and> is_distinct (rvar_query rvar) = Some True \<and> path_id (rvar_query rvar) = Some pid"
    by blast
qed

text \<open>An instance of C5: the virtual type \<open>Named\<close> and the concrete type \<open>User\<close>.\<close>

theorem range_for_objtype_distinct_path_id_witness:
  "objtype_resolves (Suc (Suc 0)) (schema ex_env) (ObjectType ''Named'')
   \<and> objtype_resolves (Suc (Suc 0)) (schema ex_env) (ObjectType ''User'')
   \<and> (\<exists>rvar env'. range_for_objtype (Suc (Suc 0)) (ObjectType ''Named'') ''p'' True ex_env
                     = Inr (rvar, env')
         \<and> is_distinct (rvar_query rvar) = Some True \<and> path_id (rvar_query rvar) = Some ''p'')
   \<and> (\<exists>rvar env'. range_for_objtype (Suc (Suc 0)) (ObjectType ''User'') ''p'' True ex_env
                     = Inr (rvar, env')
         \<and> is_distinct (rvar_query rvar) = Some True \<and> path_id (rvar_query rvar) = Some ''p'')"
proof -
  have h1: "objtype_resolves (Suc (Suc 0)) (schema ex_env) (ObjectType ''Named'')"
    by (simp add: ex_env_def ex_schema_def)
  have h2: "objtype_resolves (Suc (Suc 0)) (schema ex_env) (ObjectType ''User'')"
    by (simp add: ex_env_def ex_schema_def)
  show ?thesis
    using h1 h2
      range_for_objtype_distinct_path_id
        [of "Suc (Suc 0)" "ObjectType ''Named''" "''p''" True ex_env]
      range_for_objtype_distinct_path_id
        [of "Suc (Suc 0)" "ObjectType ''User''" "''p''" True ex_env]
    by blast
qed

subsection \<open>Claim C6: one branch per storage-owning pointer\<close>

text \<open>
  C6: the storage-owning pointers of a link are the material pointers of the sources
  that have the link, each pointer once however many sources share it. When the storage
  column of the pointer resolves, the pointer range that \<open>range_for_ptrcls\<close> returns is
  composed from exactly the tables of these pointers, one table branch for each and in
  the order of the visit: with no such pointer the call fails on the empty branch list;
  with one pointer and overlays left out the range is the table of that pointer itself,
  not a subquery; with more than one and overlays left out the range is a subquery whose
  chain has as many branches as there are storage-owning pointers.
\<close>

theorem range_for_ptrcls_one_branch_per_storage_pointer:
  "get_pointer_storage_info (schema env) ptrcls = Inr tgt_col \<longrightarrow>
     distinct (ptrcls_storage_pointers (schema env) ptrcls)
   \<and> set (storage_pointers (schema env) sources linkname) =
       {material_type (schema env) ptr | ptr source.
          source \<in> set sources \<and> getptr (schema env) source linkname = Some ptr}
   \<and> (ptrcls_storage_pointers (schema env) ptrcls = []
        \<longrightarrow> range_for_ptrcls ptrcls direction include_overlays env = Inl IndexError)
   \<and> (ptrcls_storage_pointers (schema env) ptrcls \<noteq> []
        \<longrightarrow> (\<exists>rvar env'.
               range_for_ptrcls ptrcls direction include_overlays env = Inr (rvar, env')
             \<and> range_table_relations rvar =
                 map (ptr_table_relation (schema env))
                   (ptrcls_storage_pointers (schema env) ptrcls)))
   \<and> (ptrcls_storage_pointers (schema env) ptrcls = [p]
        \<longrightarrow> (\<exists>a env'.
               range_for_ptrcls ptrcls direction False env =
                 Inr (RangeVar (ptr_table_relation (schema env) p) a, env')))
   \<and> (1 < length (ptrcls_storage_pointers (schema env) ptrcls)
        \<longrightarrow> (\<exists>q a env'.
               range_for_ptrcls ptrcls direction False env = Inr (RangeSubselect q a, env')
             \<and> length (chain_branches q) =
                 length (ptrcls_storage_pointers (schema env) ptrcls)))"
proof (intro impI conjI)
  define sp where "sp = ptrcls_storage_pointers (schema env) ptrcls"
  assume gi: "get_pointer_storage_info (schema env) ptrcls = Inr tgt_col"
  show "distinct (ptrcls_storage_pointers (schema env) ptrcls)"
    by (simp add: ptrcls_storage_pointers_def storage_pointers_def)
  show "set (storage_pointers (schema env) sources linkname) =
       {material_type (schema env) ptr | ptr source.
          source \<in> set sources \<and> getptr (schema env) source linkname = Some ptr}"
    by (rule set_storage_pointers)
  show "range_for_ptrcls ptrcls direction include_overlays env = Inl IndexError"
    if "ptrcls_storage_pointers (schema env) ptrcls = []"
    using range_for_ptrcls_result [OF gi, of include_overlays direction] that by blast
  show "\<exists>rvar env'.
          range_for_ptrcls ptrcls direction include_overlays env = Inr (rvar, env')
          \<and> range_table_relations rvar =
              map (ptr_table_relation (schema env)) (ptrcls_storage_pointers (schema env) ptrcls)"
    if "ptrcls_storage_pointers (schema env) ptrcls \<noteq> []"
    using range_for_ptrcls_result [OF gi, of include_overlays direction] that by blast
  from range_for_ptrcls_result [OF gi, of False direction] obtain n where
    n: "n = length sp"
    and res: "sp \<noteq> [] \<longrightarrow>
      (\<exists>rvar env'. range_for_ptrcls ptrcls direction False env = Inr (rvar, env')
         \<and> range_table_relations rvar = map (ptr_table_relation (schema env)) sp
         \<and> (n = 1 \<longrightarrow> (\<exists>rel a. rvar = RangeVar rel a))
         \<and> (1 < n \<longrightarrow> (\<exists>q a. rvar = RangeSubselect q a \<and> length (chain_branches q) = n)))"
    unfolding sp_def by (elim exE conjE) simp
  show "\<exists>a env'. range_for_ptrcls ptrcls direction False env =
          Inr (RangeVar (ptr_table_relation (schema env) p) a, env')"
    if one: "ptrcls_storage_pointers (schema env) ptrcls = [p]"
  proof -
    from one have sp1: "sp = [p]" by (simp add: sp_def)
    with n res obtain rvar env' rel a where
      r: "range_for_ptrcls ptrcls direction False env = Inr (rvar, env')"
      and t: "range_table_relations rvar = [ptr_table_relation (schema env) p]"
      and v: "rvar = RangeVar rel a"
      by auto
    from t v have "rel = ptr_table_relation (schema env) p" by simp
    with r v show ?thesis by blast
  qed
  show "\<exists>q a env'.
          range_for_ptrcls ptrcls direction False env = Inr (RangeSubselect q a, env')
          \<and> length (chain_branches q) = length (ptrcls_storage_pointers (schema env) ptrcls)"
    if many: "1 < length (ptrcls_storage_pointers (schema env) ptrcls)"
  proof -
    from many have "1 < n" "sp \<noteq> []" using n by (auto simp: sp_def)
    with res n show ?thesis unfolding sp_def by blast
  qed
qed

text \<open>
  Instances of C6: the link \<open>friends\<close> of \<open>Root\<close>, inherited by \<open>Child1\<close> and
  \<open>Child2\<close> on the storage of \<open>Root\<close>, gives the one table itself, and one table
  branch when overlays are included; the same link in the catalog where every pointer
  owns its storage gives a chain of three branches.
\<close>

theorem range_for_ptrcls_one_branch_per_storage_pointer_witness:
  "get_pointer_storage_info (schema ex_env) (Link ''friends'') = Inr ''std::target''
   \<and> remdups (get_source (schema ex_env) (Link ''friends'')
        # descendants (schema ex_env) (get_source (schema ex_env) (Link ''friends''))) =
       [ObjectType ''Root'', ObjectType ''Child1'', ObjectType ''Other'', ObjectType ''Child2'']
   \<and> ptrcls_storage_pointers (schema ex_env) (Link ''friends'') = [Link ''friends'']
   \<and> (\<exists>a env'. range_for_ptrcls (Link ''friends'') Outbound False ex_env =
         Inr (RangeVar (Relation ''edgedb_test'' (Some ''friends_link'') None None) a, env'))
   \<and> ptrcls_storage_pointers (schema ex_env_own_storage) (Link ''friends'') =
       [Link ''friends'', Link ''friends@Child1'', Link ''friends@Child2'']
   \<and> (\<exists>q a env'. range_for_ptrcls (Link ''friends'') Outbound False ex_env_own_storage =
         Inr (RangeSubselect q a, env')
       \<and> length (chain_branches q) = 3)
   \<and> (\<exists>rvar env'. range_for_ptrcls (Link ''friends'') Outbound True ex_env_link_overlays =
         Inr (rvar, env')
       \<and> range_table_relations rvar = [Relation ''edgedb_test'' (Some ''friends_link'') None None])"
proof -
  have g1: "get_pointer_storage_info (schema ex_env) (Link ''friends'') = Inr ''std::target''"
    and g2: "get_pointer_storage_info (schema ex_env_own_storage) (Link ''friends'')
               = Inr ''std::target''"
    and g3: "get_pointer_storage_info (schema ex_env_link_overlays) (Link ''friends'')
               = Inr ''std::target''"
    by (simp_all add: ex_env_def ex_env_own_storage_def ex_env_link_overlays_def ex_schema_def)
  have src: "remdups (get_source (schema ex_env) (Link ''friends'')
        # descendants (schema ex_env) (get_source (schema ex_env) (Link ''friends''))) =
       [ObjectType ''Root'', ObjectType ''Child1'', ObjectType ''Other'', ObjectType ''Child2'']"
    by (simp add: ex_env_def ex_schema_def)
  have s1: "ptrcls_storage_pointers (schema ex_env) (Link ''friends'') = [Link ''friends'']"
    by (simp add: ptrcls_storage_pointers_def storage_pointers_def map_filter_simps
        ex_env_def ex_schema_def)
  have s2: "ptrcls_storage_pointers (schema ex_env_own_storage) (Link ''friends'') =
       [Link ''friends'', Link ''friends@Child1'', Link ''friends@Child2'']"
    by (simp add: ptrcls_storage_pointers_def storage_pointers_def map_filter_simps
        ex_env_own_storage_def ex_env_def ex_schema_def)
  have s3: "ptrcls_storage_pointers (schema ex_env_link_overlays) (Link ''friends'')
              = [Link ''friends'']"
    by (simp add: ptrcls_storage_pointers_def storage_pointers_def map_filter_simps
        ex_env_link_overlays_def ex_env_def ex_schema_def)
  have t1: "ptr_table_relation (schema ex_env) (Link ''friends'') =
              Relation ''edgedb_test'' (Some ''friends_link'') None None"
    and t3: "ptr_table_relation (schema ex_env_link_overlays) (Link ''friends'') =
              Relation ''edgedb_test'' (Some ''friends_link'') None None"
    by (simp_all add: ptr_table_relation_def ex_env_def ex_env_link_overlays_def ex_schema_def)
  note th1 = range_for_ptrcls_one_branch_per_storage_pointer
      [where env = ex_env and ptrcls = "Link ''friends''" and tgt_col = "''std::target''"
         and p = "Link ''friends''" and direction = Outbound]
  note th2 = range_for_ptrcls_one_branch_per_storage_pointer
      [where env = ex_env_own_storage and ptrcls = "Link ''friends''"
         and tgt_col = "''std::target''" and direction = Outbound]
  note th3 = range_for_ptrcls_one_branch_per_storage_pointer
      [where env = ex_env_link_overlays and ptrcls = "Link ''friends''"
         and tgt_col = "''std::target''" and direction = Outbound and include_overlays = True]
  have a: "\<exists>a env'. range_for_ptrcls (Link ''friends'') Outbound False ex_env =
         Inr (RangeVar (Relation ''edgedb_test'' (Some ''friends_link'') None None) a, env')"
    using th1 g1 s1 t1 by simp
  have b: "\<exists>q a env'. range_for_ptrcls (Link ''friends'') Outbound False ex_env_own_storage =
         Inr (RangeSubselect q a, env') \<and> length (chain_branches q) = 3"
    using th2 g2 s2 by (simp add: numeral_3_eq_3)
  have c: "\<exists>rvar env'. range_for_ptrcls (Link ''friends'') Outbound True ex_env_link_overlays =
         Inr (rvar, env')
       \<and> range_table_relations rvar = [Relation ''edgedb_test'' (Some ''friends_link'') None None]"
    using th3 g3 s3 t3 by simp
  from g1 src s1 a s2 b c show ?thesis by blast
qed

subsection \<open>Claim C7: the set combinator\<close>

text \<open>
  C7: given exactly one entry, the set combinator returns the first range variable of
  that entry's statement itself, and allocates no alias; given more than one entry, it
  returns a subquery range over the left-deep chain of the entries in the input order,
  aliased from the short name of the target entity. For three entries the chain combines
  the first two and then the third on the right.
\<close>

theorem range_from_queryset_left_deep:
  "range_from_queryset [(op', SelectStmt n tg (rvar # rvs) a opr l r rp pid d m sc)] stype env
     = Inr (rvar, env)
   \<and> (\<exists>chain.
         left_deep_chain (e0 # e1 # rest) = Some chain
       \<and> range_from_queryset (e0 # e1 # rest) stype env =
           Inr (RangeSubselect chain
                  (Alias (fst (env_aliases_get env (Some (name (get_shortname (schema env) stype)))))
                     []),
                snd (env_aliases_get env (Some (name (get_shortname (schema env) stype))))))
   \<and> left_deep_chain [(op0, q0), (op1, q1), (op2, q2)] =
       Some (set_op_node (set_op_node q0 op1 q1) op2 q2)"
proof -
  obtain opa rela where e0: "e0 = (opa, rela)" by (cases e0)
  have many: "range_from_queryset (e0 # e1 # rest) stype env =
      Inr (RangeSubselect
             (foldl (\<lambda>acc (op', rel). set_op_node acc op' rel) rela (e1 # rest))
             (Alias (fst (env_aliases_get env (Some (name (get_shortname (schema env) stype))))) []),
           snd (env_aliases_get env (Some (name (get_shortname (schema env) stype)))))"
    by (simp add: range_from_queryset_many e0 split: prod.splits del: foldl_Cons)
  have chain: "left_deep_chain (e0 # e1 # rest) =
      Some (foldl (\<lambda>acc (op', rel). set_op_node acc op' rel) rela (e1 # rest))"
    by (simp add: e0)
  have three: "left_deep_chain [(op0, q0), (op1, q1), (op2, q2)] =
      Some (set_op_node (set_op_node q0 op1 q1) op2 q2)"
    by simp
  show ?thesis
    using many chain three range_from_queryset_one by blast
qed

subsection \<open>Claim C8: nullability policy of the column resolver\<close>

text \<open>
  C8, as the code has it. A bare column name with no explicit nullability flag yields a
  reference marked nullable, and with an explicit flag the flag governs; the explicit
  \<open>optional\<close> parameter governs for a bare name. When a column reference is supplied, its
  optionality always propagates to the result, whatever the \<open>optional\<close> parameter is, and
  its nullability propagates when no explicit nullability flag is passed; an explicit
  nullability flag replaces the nullability of the reference.
\<close>

theorem get_column_nullability_policy:
  "get_column rvar (ColName s) optional None =
     Inr (ColumnRef (column_name rvar s) (Some True) (Some optional))
   \<and> get_column rvar (ColName s) optional (Some b) =
     Inr (ColumnRef (column_name rvar s) (Some b) (Some optional))
   \<and> get_column rvar (ColRef (ColumnRef (ns @ [c]) nl ol)) optional None =
     Inr (ColumnRef (column_name rvar c) nl ol)
   \<and> get_column rvar (ColRef (ColumnRef (ns @ [c]) nl ol)) optional (Some b) =
     Inr (ColumnRef (column_name rvar c) (Some b) ol)"
  by (simp add: get_column_cases)

text \<open>
  C8 as stated fails when a nullability flag is passed together with a column reference:
  the reference is marked \<open>nullable = False\<close>, the call passes \<open>nullable = True\<close>, and the
  result is marked nullable.
\<close>

theorem get_column_explicit_nullable_counterexample:
  "get_column None (ColRef (ColumnRef [''q'', ''age''] (Some False) (Some True))) False (Some True)
     = Inr (ColumnRef [''age''] (Some True) (Some True))"
  by (simp add: get_column_def column_name_def)

subsection \<open>Claim C9: resolving a tuple-shaped output variable\<close>



subsection \<open>Claim C10: tuple elements are resolved with the default flags\<close>

text \<open>
  C10: for a tuple-shaped variable the result does not depend on the \<open>optional\<close> and
  \<open>nullable\<close> arguments of the call: it is assembled from the elements' names resolved
  with \<open>optional = False\<close> and no nullability flag, and it fails with the first error of
  these resolutions. A column element resolved this way takes nullability and
  optionality from the element's own reference.
\<close>

theorem get_rvar_var_tuple_default_flags:
  "get_rvar_var rvar (IsOutputVar (TupleVar els nmd)) optional nullable =
     (case collect (map (\<lambda>el. get_rvar_var rvar (el_name el) False None) els) of
        Inl e \<Rightarrow> Inl e
      | Inr vals \<Rightarrow> Inr (TupleVar (map2 resolved_element els vals) nmd))
   \<and> get_rvar_var rvar (IsOutputVar (ColumnVar (ColumnRef (ns @ [c]) nl ol))) False None =
     Inr (ColumnVar (ColumnRef (column_name rvar c) nl ol))"
  by (simp add: get_rvar_var_elements_collect get_column_cases split: sum.splits)

end
